theory Spec2Isabelle
  imports Main
begin

section \<open>Data model: JavaScript values\<close>

text \<open>
  The tracker works on the values a Telegram update is made of: JSON-like trees, plus
  \<open>undefined\<close>, which every read of a missing property produces. Strings are lists
  of code units; only their length and prefixes matter here. Numbers are modelled as
  integers (identifiers, amounts and dates of an update are integers). An object is the
  list of its own entries in the order \<open>Object.entries\<close> enumerates them.
\<close>

datatype jv =
    JNull
  | JUndef
  | JBool bool
  | JNum int
  | JStr string
  | JArr "jv list"
  | JObj "(string \<times> jv) list"

datatype error = TypeError

text \<open>\<open>v == null\<close>: true of \<open>null\<close> and \<open>undefined\<close> only.\<close>

fun nullish :: "jv \<Rightarrow> bool" where
  "nullish JNull = True"
| "nullish JUndef = True"
| "nullish _ = False"

text \<open>\<open>Array.isArray(v) && v.length === 0\<close>\<close>

fun isEmptyArray :: "jv \<Rightarrow> bool" where
  "isEmptyArray (JArr []) = True"
| "isEmptyArray _ = False"

text \<open>
  \<open>out[k] = v\<close> on an object under construction: an existing key keeps its place and
  takes the new value, a new key goes last.
\<close>

definition setProp :: "(string \<times> jv) list \<Rightarrow> string \<Rightarrow> jv \<Rightarrow> (string \<times> jv) list" where
  "setProp out k v =
     (if k \<in> set (map fst out)
      then map (\<lambda>(k', v'). if k' = k then (k', v) else (k', v')) out
      else out @ [(k, v)])"

text \<open>\<open>Object.fromEntries\<close>: the entries are assigned one after the other.\<close>

definition fromEntries :: "(string \<times> jv) list \<Rightarrow> (string \<times> jv) list" where
  "fromEntries es = foldl (\<lambda>out (k, v). setProp out k v) [] es"

section \<open>Null Pruner\<close>

text \<open>
  \<open>removeNulls\<close> of \<open>src/index.js\<close> (lines 182-193, and the same body again at
  lines 377-390): an array keeps its non-null pruned elements; an object keeps the
  entries whose pruned value is neither null nor an empty array, and is itself
  \<open>null\<close> when nothing is left; anything else is returned as it is.
\<close>

fun removeNulls :: "jv \<Rightarrow> jv" where
  "removeNulls (JArr xs) = JArr (filter (\<lambda>v. \<not> nullish v) (map removeNulls xs))"
| "removeNulls (JObj es) =
     (let cleaned = fromEntries
            (filter (\<lambda>(k, v). \<not> nullish v \<and> \<not> isEmptyArray v)
               (map (\<lambda>(k, v). (k, removeNulls v)) es))
      in if length cleaned > 0 then JObj cleaned else JNull)"
| "removeNulls obj = obj"

text \<open>
  \<open>removeNulls\<close> of \<open>src/unnamed/part_000\<close> (lines 264-275): arrays are mapped
  without filtering, and an object is returned even when no entry is left.
\<close>

fun removeNulls_part0 :: "jv \<Rightarrow> jv" where
  "removeNulls_part0 (JArr xs) = JArr (map removeNulls_part0 xs)"
| "removeNulls_part0 (JObj es) =
     (let cleaned = fromEntries
            (filter (\<lambda>(k, v). \<not> nullish v)
               (map (\<lambda>(k, v). (k, removeNulls_part0 v)) es))
      in JObj cleaned)"
| "removeNulls_part0 obj = obj"

section \<open>Reading values\<close>

text \<open>The truth value JavaScript gives a value in a condition.\<close>

fun truthy :: "jv \<Rightarrow> bool" where
  "truthy JNull = False"
| "truthy JUndef = False"
| "truthy (JBool b) = b"
| "truthy (JNum n) = (n \<noteq> 0)"
| "truthy (JStr s) = (s \<noteq> [])"
| "truthy (JArr xs) = True"
| "truthy (JObj es) = True"

text \<open>
  \<open>member v k\<close> is the property \<open>k\<close> of a value that is neither \<open>null\<close> nor
  \<open>undefined\<close>: the entry of an object, and \<open>undefined\<close> where there is none. The
  code reads data properties only (\<open>message\<close>, \<open>file_id\<close>, ...), which numbers,
  booleans, strings and arrays do not have; the methods \<open>slice\<close> and \<open>map\<close> and
  the property \<open>length\<close> are modelled where they are called.
\<close>

fun member :: "jv \<Rightarrow> string \<Rightarrow> jv" where
  "member (JObj es) k = (case map_of es k of Some v \<Rightarrow> v | None \<Rightarrow> JUndef)"
| "member v k = JUndef"

text \<open>\<open>v.k\<close>: a TypeError on \<open>null\<close> and \<open>undefined\<close>.\<close>

definition getProp :: "jv \<Rightarrow> string \<Rightarrow> error + jv" where
  "getProp v k = (if nullish v then Inl TypeError else Inr (member v k))"

text \<open>\<open>v?.k\<close>: \<open>undefined\<close> on \<open>null\<close> and \<open>undefined\<close>.\<close>

definition optProp :: "jv \<Rightarrow> string \<Rightarrow> jv" where
  "optProp v k = (if nullish v then JUndef else member v k)"

text \<open>\<open>a ?? b\<close>\<close>

definition coalesce :: "jv \<Rightarrow> jv \<Rightarrow> jv" where
  "coalesce a b = (if nullish a then b else a)"

text \<open>
  \<open>xs.slice(0, end)\<close> on a string or an array: a negative \<open>end\<close> counts from the
  end of \<open>xs\<close>.
\<close>

definition slice0 :: "'a list \<Rightarrow> int \<Rightarrow> 'a list" where
  "slice0 xs e =
     (let len = int (length xs);
          to = (if e < 0 then max (len + e) 0 else min e len)
      in take (nat to) xs)"

text \<open>\<open>xs.map(f)\<close> where \<open>f\<close> may raise: the first exception ends the call.\<close>

fun mapE :: "('a \<Rightarrow> error + 'b) \<Rightarrow> 'a list \<Rightarrow> error + 'b list" where
  "mapE f [] = Inr []"
| "mapE f (x # xs) =
     (case f x of
        Inl e \<Rightarrow> Inl e
      | Inr y \<Rightarrow> (case mapE f xs of Inl e \<Rightarrow> Inl e | Inr ys \<Rightarrow> Inr (y # ys)))"

text \<open>
  The context Telegraf hands to a middleware, with the properties the tracker reads:
  \<open>ctx.update\<close>, \<open>ctx.from\<close>, \<open>ctx.chat\<close>, \<open>ctx.message\<close>,
  \<open>ctx.callbackQuery\<close>, \<open>ctx.inlineQuery\<close>, \<open>ctx.preCheckoutQuery\<close> and
  \<open>ctx.shippingQuery\<close>.
\<close>

record telegrafCtx =
  ctx_update :: jv
  ctx_from :: jv
  ctx_chat :: jv
  ctx_message :: jv
  ctx_callbackQuery :: jv
  ctx_inlineQuery :: jv
  ctx_preCheckoutQuery :: jv
  ctx_shippingQuery :: jv

section \<open>Event Classifier\<close>

text \<open>
  \<open>detectEventType\<close> of \<open>src/index.js\<close> (lines 81-102) and of
  \<open>src/unnamed/part_000\<close> (lines 82-103), which are the same. The first read,
  \<open>update.message\<close>, raises when \<open>ctx.update\<close> is \<open>null\<close> or \<open>undefined\<close>.
\<close>

definition detectEventType :: "telegrafCtx \<Rightarrow> error + string" where
  "detectEventType ctx =
     (let update = ctx_update ctx in
      if nullish update then Inl TypeError
      else Inr
       (if truthy (member update ''message'') then ''message''
        else if truthy (member update ''callback_query'') then ''callback_query''
        else if truthy (member update ''inline_query'') then ''inline_query''
        else if truthy (member update ''chosen_inline_result'') then ''chosen_inline_result''
        else if truthy (member update ''poll'') then ''poll''
        else if truthy (member update ''poll_answer'') then ''poll_answer''
        else if truthy (member update ''pre_checkout_query'') then ''pre_checkout_query''
        else if truthy (member update ''shipping_query'') then ''shipping_query''
        else if truthy (member update ''chat_join_request'') then ''chat_join_request''
        else if truthy (member update ''chat_member'') then ''chat_member''
        else if truthy (member update ''my_chat_member'') then ''my_chat_member''
        else if truthy (member update ''business_message'') then ''business_message''
        else if truthy (member update ''edited_business_message'')
          then ''edited_business_message''
        else if truthy (member update ''deleted_business_messages'')
          then ''deleted_business_messages''
        else if truthy (member update ''message_reaction'') then ''message_reaction''
        else if truthy (member update ''message_reaction_count'')
          then ''message_reaction_count''
        else ''unknown''))"

text \<open>The categories \<open>detectEventType\<close> can return.\<close>

definition eventTypes :: "string list" where
  "eventTypes =
     [''message'', ''callback_query'', ''inline_query'', ''chosen_inline_result'', ''poll'',
      ''poll_answer'', ''pre_checkout_query'', ''shipping_query'', ''chat_join_request'',
      ''chat_member'', ''my_chat_member'', ''business_message'', ''edited_business_message'',
      ''deleted_business_messages'', ''message_reaction'', ''message_reaction_count'',
      ''unknown'']"

text \<open>
  \<open>detectEventType\<close> of the second module of \<open>src/index.js\<close> (lines 233-266): a
  message is classified further by its content, payments first.
\<close>

definition detectEventType_fin :: "telegrafCtx \<Rightarrow> error + string" where
  "detectEventType_fin ctx =
     (let update = ctx_update ctx in
      if nullish update then Inl TypeError
      else Inr
       (if truthy (member update ''message'') then
          (let message = member update ''message'' in
           if truthy (member message ''successful_payment'') then ''successful_payment''
           else if truthy (member message ''invoice'') then ''invoice''
           else if truthy (member message ''text'') then ''text_message''
           else if truthy (member message ''photo'') then ''photo_message''
           else if truthy (member message ''video'') then ''video_message''
           else if truthy (member message ''document'') then ''document_message''
           else if truthy (member message ''audio'') then ''audio_message''
           else if truthy (member message ''voice'') then ''voice_message''
           else if truthy (member message ''sticker'') then ''sticker_message''
           else if truthy (member message ''poll'') then ''poll_message''
           else if truthy (member message ''contact'') then ''contact_message''
           else if truthy (member message ''location'') then ''location_message''
           else ''message'')
        else if truthy (member update ''edited_message'') then ''edited_message''
        else if truthy (member update ''channel_post'') then ''channel_post''
        else if truthy (member update ''edited_channel_post'') then ''edited_channel_post''
        else if truthy (member update ''inline_query'') then ''inline_query''
        else if truthy (member update ''chosen_inline_result'') then ''chosen_inline_result''
        else if truthy (member update ''callback_query'') then ''callback_query''
        else if truthy (member update ''shipping_query'') then ''shipping_query''
        else if truthy (member update ''pre_checkout_query'') then ''pre_checkout_query''
        else if truthy (member update ''poll'') then ''poll''
        else if truthy (member update ''poll_answer'') then ''poll_answer''
        else if truthy (member update ''my_chat_member'') then ''my_chat_member''
        else if truthy (member update ''chat_member'') then ''chat_member''
        else if truthy (member update ''chat_join_request'') then ''chat_join_request''
        else ''unknown''))"

section \<open>Serialisation\<close>

text \<open>
  \<open>JSON.stringify\<close> in its compact form, on trees. \<open>serialize v\<close> is \<open>None\<close>
  where \<open>JSON.stringify\<close> returns \<open>undefined\<close>. An \<open>undefined\<close> element of an
  array is written \<open>null\<close>; an entry of an object whose value is \<open>undefined\<close> is
  left out. On a tree the call does not raise (it does on cyclic structures and on
  BigInt values, which a tree has not).
\<close>

definition hexDigit :: "nat \<Rightarrow> char" where
  "hexDigit n = ''0123456789abcdef'' ! (n mod 16)"

definition escapeChar :: "char \<Rightarrow> string" where
  "escapeChar c =
     (if c = CHR 0x22 then [CHR 0x5C, CHR 0x22]
      else if c = CHR 0x5C then [CHR 0x5C, CHR 0x5C]
      else if c = CHR 0x08 then [CHR 0x5C, CHR ''b'']
      else if c = CHR 0x0C then [CHR 0x5C, CHR ''f'']
      else if c = CHR 0x0A then [CHR 0x5C, CHR ''n'']
      else if c = CHR 0x0D then [CHR 0x5C, CHR ''r'']
      else if c = CHR 0x09 then [CHR 0x5C, CHR ''t'']
      else if (of_char c :: nat) < 32
        then [CHR 0x5C, CHR ''u'', CHR ''0'', CHR ''0'',
              hexDigit ((of_char c :: nat) div 16), hexDigit (of_char c)]
      else [c])"

definition quoteString :: "string \<Rightarrow> string" where
  "quoteString s = [CHR 0x22] @ concat (map escapeChar s) @ [CHR 0x22]"

fun showNat :: "nat \<Rightarrow> string" where
  "showNat n =
     (if n < 10 then [''0123456789'' ! n]
      else showNat (n div 10) @ [''0123456789'' ! (n mod 10)])"

declare showNat.simps [simp del]

definition showInt :: "int \<Rightarrow> string" where
  "showInt i = (if i < 0 then ''-'' @ showNat (nat (- i)) else showNat (nat i))"

fun joinComma :: "string list \<Rightarrow> string" where
  "joinComma [] = []"
| "joinComma [x] = x"
| "joinComma (x # y # ys) = x @ '','' @ joinComma (y # ys)"

fun serialize :: "jv \<Rightarrow> string option" where
  "serialize JNull = Some ''null''"
| "serialize JUndef = None"
| "serialize (JBool b) = Some (if b then ''true'' else ''false'')"
| "serialize (JNum n) = Some (showInt n)"
| "serialize (JStr s) = Some (quoteString s)"
| "serialize (JArr xs) =
     Some (''['' @
           joinComma (map (\<lambda>x. case serialize x of None \<Rightarrow> ''null'' | Some t \<Rightarrow> t) xs) @
           '']'')"
| "serialize (JObj es) =
     Some (''{'' @
           joinComma (concat (map (\<lambda>(k, v). case serialize v of
                                               None \<Rightarrow> []
                                             | Some t \<Rightarrow> [quoteString k @ '':'' @ t]) es)) @
           ''}'')"

text \<open>\<open>JSON.stringify(v)\<close> as a value.\<close>

definition JSON_stringify :: "jv \<Rightarrow> jv" where
  "JSON_stringify v = (case serialize v of None \<Rightarrow> JUndef | Some s \<Rightarrow> JStr s)"

section \<open>Field Redactor\<close>

text \<open>
  \<open>safeText\<close> of \<open>src/index.js\<close> (lines 135-136): a string is cut, anything else
  gives \<open>null\<close>.
\<close>

definition safeText :: "jv \<Rightarrow> int \<Rightarrow> jv" where
  "safeText text mx = (case text of JStr s \<Rightarrow> JStr (slice0 s mx) | _ \<Rightarrow> JNull)"

text \<open>
  The method call \<open>x.slice(0, n)\<close>: strings and arrays have the method; on any other
  value the call raises a TypeError (\<open>null\<close> and \<open>undefined\<close> have no
  properties, and elsewhere \<open>slice\<close> is not a function).
\<close>

fun sliceCall :: "jv \<Rightarrow> int \<Rightarrow> error + jv" where
  "sliceCall (JStr s) n = Inr (JStr (slice0 s n))"
| "sliceCall (JArr xs) n = Inr (JArr (slice0 xs n))"
| "sliceCall v n = Inl TypeError"

text \<open>
  \<open>safeText\<close> of \<open>src/unnamed/part_000\<close> (lines 127-132): a string is cut; an
  object other than \<open>null\<close> (arrays are objects) is serialised and the result is
  cut; anything else gives \<open>null\<close>.
\<close>

definition safeText_part0 :: "jv \<Rightarrow> int \<Rightarrow> error + jv" where
  "safeText_part0 text mx =
     (case text of
        JStr s \<Rightarrow> Inr (JStr (slice0 s mx))
      | JArr xs \<Rightarrow> sliceCall (JSON_stringify text) mx
      | JObj es \<Rightarrow> sliceCall (JSON_stringify text) mx
      | _ \<Rightarrow> Inr JNull)"

section \<open>Recursive Sanitizer\<close>

text \<open>
  \<open>sanitizeUpdate\<close> of \<open>src/unnamed/part_000\<close> (lines 203-259). The keys whose
  values are reduced to their file identifiers:
\<close>

definition mediaKeys :: "string list" where
  "mediaKeys =
     [''photo'', ''video'', ''document'', ''voice'', ''sticker'', ''animation'', ''audio'',
      ''video_note'', ''new_chat_photo'', ''thumb'', ''thumbnail'']"

text \<open>
  \<open>{ file_id: v.file_id, file_unique_id: v.file_unique_id }\<close>: the reads raise when
  \<open>v\<close> is \<open>null\<close> or \<open>undefined\<close>.
\<close>

definition idPair :: "jv \<Rightarrow> error + jv" where
  "idPair v =
     (case getProp v ''file_id'' of
        Inl e \<Rightarrow> Inl e
      | Inr a \<Rightarrow>
          (case getProp v ''file_unique_id'' of
             Inl e \<Rightarrow> Inl e
           | Inr b \<Rightarrow> Inr (JObj [(''file_id'', a), (''file_unique_id'', b)])))"

text \<open>The marker appended to a string that was cut.\<close>

definition truncatedMarker :: string where
  "truncatedMarker = ''...[truncated]''"

text \<open>
  Lines 212-215: \<open>val.length > maxTextLength ? val.slice(0, maxTextLength) +
  "...[truncated]" : val\<close>.
\<close>

definition limitString :: "int \<Rightarrow> string \<Rightarrow> string" where
  "limitString mx val =
     (if int (length val) > mx then slice0 val mx @ truncatedMarker else val)"

text \<open>
  The inner function \<open>sanitize\<close>. \<open>sanitizeItems\<close> is \<open>obj.map(sanitize)\<close>, and
  \<open>sanitizeEntries\<close> is the loop over \<open>Object.entries(obj)\<close>, with the object
  \<open>out\<close> built so far: a string value is limited; under a media key an array is
  mapped to identifier pairs and an object is replaced by its identifier pair, and any
  other value (\<open>null\<close>, \<open>undefined\<close>, a boolean, a number) leaves no entry;
  under every other key the value is sanitized recursively.
\<close>

fun sanitize :: "int \<Rightarrow> jv \<Rightarrow> error + jv"
  and sanitizeItems :: "int \<Rightarrow> jv list \<Rightarrow> error + jv list"
  and sanitizeEntries ::
    "int \<Rightarrow> (string \<times> jv) list \<Rightarrow> (string \<times> jv) list \<Rightarrow> error + (string \<times> jv) list"
where
  "sanitize mx (JArr xs) =
     (case sanitizeItems mx xs of Inl e \<Rightarrow> Inl e | Inr ys \<Rightarrow> Inr (JArr ys))"
| "sanitize mx (JObj es) =
     (case sanitizeEntries mx es [] of Inl e \<Rightarrow> Inl e | Inr out \<Rightarrow> Inr (JObj out))"
| "sanitize mx JNull = Inr JNull"
| "sanitize mx JUndef = Inr JUndef"
| "sanitize mx (JBool b) = Inr (JBool b)"
| "sanitize mx (JNum n) = Inr (JNum n)"
| "sanitize mx (JStr s) = Inr (JStr s)"
| "sanitizeItems mx [] = Inr []"
| "sanitizeItems mx (x # xs) =
     (case sanitize mx x of
        Inl e \<Rightarrow> Inl e
      | Inr y \<Rightarrow> (case sanitizeItems mx xs of Inl e \<Rightarrow> Inl e | Inr ys \<Rightarrow> Inr (y # ys)))"
| "sanitizeEntries mx [] out = Inr out"
| "sanitizeEntries mx ((key, JStr s) # es) out =
     sanitizeEntries mx es (setProp out key (JStr (limitString mx s)))"
| "sanitizeEntries mx ((key, JArr vs) # es) out =
     (if key \<in> set mediaKeys then
        (case mapE idPair vs of
           Inl e \<Rightarrow> Inl e
         | Inr ps \<Rightarrow> sanitizeEntries mx es (setProp out key (JArr ps)))
      else
        (case sanitize mx (JArr vs) of
           Inl e \<Rightarrow> Inl e
         | Inr v \<Rightarrow> sanitizeEntries mx es (setProp out key v)))"
| "sanitizeEntries mx ((key, JObj fs) # es) out =
     (if key \<in> set mediaKeys then
        (case idPair (JObj fs) of
           Inl e \<Rightarrow> Inl e
         | Inr p \<Rightarrow> sanitizeEntries mx es (setProp out key p))
      else
        (case sanitize mx (JObj fs) of
           Inl e \<Rightarrow> Inl e
         | Inr v \<Rightarrow> sanitizeEntries mx es (setProp out key v)))"
| "sanitizeEntries mx ((key, JNull) # es) out =
     (if key \<in> set mediaKeys then sanitizeEntries mx es out
      else
        (case sanitize mx JNull of
           Inl e \<Rightarrow> Inl e
         | Inr v \<Rightarrow> sanitizeEntries mx es (setProp out key v)))"
| "sanitizeEntries mx ((key, JUndef) # es) out =
     (if key \<in> set mediaKeys then sanitizeEntries mx es out
      else
        (case sanitize mx JUndef of
           Inl e \<Rightarrow> Inl e
         | Inr v \<Rightarrow> sanitizeEntries mx es (setProp out key v)))"
| "sanitizeEntries mx ((key, JBool b) # es) out =
     (if key \<in> set mediaKeys then sanitizeEntries mx es out
      else
        (case sanitize mx (JBool b) of
           Inl e \<Rightarrow> Inl e
         | Inr v \<Rightarrow> sanitizeEntries mx es (setProp out key v)))"
| "sanitizeEntries mx ((key, JNum n) # es) out =
     (if key \<in> set mediaKeys then sanitizeEntries mx es out
      else
        (case sanitize mx (JNum n) of
           Inl e \<Rightarrow> Inl e
         | Inr v \<Rightarrow> sanitizeEntries mx es (setProp out key v)))"

definition sanitizeUpdate :: "jv \<Rightarrow> int \<Rightarrow> error + jv" where
  "sanitizeUpdate update maxTextLength = sanitize maxTextLength update"

text \<open>
  The object literal \<open>{ file_id: v.file_id, file_unique_id: v.file_unique_id }\<close> for
  a value \<open>v\<close> that is neither \<open>null\<close> nor \<open>undefined\<close>.
\<close>

definition idsOf :: "jv \<Rightarrow> jv" where
  "idsOf v = JObj [(''file_id'', member v ''file_id''),
                   (''file_unique_id'', member v ''file_unique_id'')]"






section \<open>Scalar leaves of a tree\<close>



section \<open>Payload Composer\<close>

text \<open>\<open>try { body } catch { return handler }\<close>\<close>

definition tryCatch :: "error + jv \<Rightarrow> jv \<Rightarrow> jv" where
  "tryCatch body handler = (case body of Inl e \<Rightarrow> handler | Inr v \<Rightarrow> v)"

text \<open>
  \<open>safeCtx\<close> of \<open>src/index.js\<close> (lines 134-174). The second argument,
  \<open>bot\<close>, is written \<open>bot'\<close>. Every read goes through \<open>?.\<close>, and the body
  of the \<open>try\<close> serialises a tree, so nothing here raises.
\<close>

definition safeCtx :: "telegrafCtx \<Rightarrow> jv \<Rightarrow> bool \<Rightarrow> int \<Rightarrow> jv" where
  "safeCtx ctx bot' includeRawUpdate maxTextLength =
     (let payload = JObj
        [(''bot'', JObj
            [(''username'', coalesce (optProp (optProp bot' ''botInfo'') ''username'') JNull),
             (''id'', coalesce (optProp (optProp bot' ''botInfo'') ''id'') JNull)]),
         (''user'', JObj
            [(''id'', coalesce (optProp (ctx_from ctx) ''id'') JNull),
             (''username'', coalesce (optProp (ctx_from ctx) ''username'') JNull),
             (''first_name'', coalesce (optProp (ctx_from ctx) ''first_name'') JNull),
             (''last_name'', coalesce (optProp (ctx_from ctx) ''last_name'') JNull),
             (''language_code'', coalesce (optProp (ctx_from ctx) ''language_code'') JNull)]),
         (''chat'', JObj
            [(''id'', coalesce (optProp (ctx_chat ctx) ''id'') JNull),
             (''type'', coalesce (optProp (ctx_chat ctx) ''type'') JNull),
             (''title'', coalesce (optProp (ctx_chat ctx) ''title'') JNull),
             (''username'', coalesce (optProp (ctx_chat ctx) ''username'') JNull)]),
         (''message'', safeText (optProp (ctx_message ctx) ''text'') maxTextLength),
         (''callback_query'', safeText (optProp (ctx_callbackQuery ctx) ''data'') maxTextLength),
         (''inline_query'', safeText (optProp (ctx_inlineQuery ctx) ''query'') maxTextLength),
         (''raw_update'',
            if includeRawUpdate
            then tryCatch
                   (Inr (if truthy (ctx_update ctx) then JSON_stringify (ctx_update ctx)
                         else JNull))
                   JNull
            else JNull)]
      in removeNulls payload)"

text \<open>
  \<open>safeCtx\<close> of \<open>src/unnamed/part_000\<close> (lines 126-198). The bot's identity is
  taken from \<open>bot.botInfo\<close> and, where that is missing, from a sender of the update
  that is a bot.
\<close>

definition botFrom_part0 :: "telegrafCtx \<Rightarrow> jv" where
  "botFrom_part0 ctx =
     coalesce
       (coalesce
          (coalesce
             (coalesce
                (optProp (optProp (ctx_update ctx) ''message'') ''from'')
                (optProp (optProp (optProp (ctx_update ctx) ''callback_query'') ''message'')
                   ''from''))
             (optProp (optProp (ctx_update ctx) ''business_message'') ''from''))
          (optProp (optProp (ctx_update ctx) ''edited_business_message'') ''from''))
       JNull"

definition botInfo_part0 :: "telegrafCtx \<Rightarrow> jv \<Rightarrow> jv \<times> jv" where
  "botInfo_part0 ctx bot' =
     (let botId = coalesce (optProp (optProp bot' ''botInfo'') ''id'') JNull;
          botUsername = coalesce (optProp (optProp bot' ''botInfo'') ''username'') JNull
      in if \<not> truthy botId \<or> \<not> truthy botUsername then
           (let botFrom = botFrom_part0 ctx in
            if truthy (optProp botFrom ''is_bot'')
            then (coalesce botId (member botFrom ''id''),
                  coalesce botUsername (member botFrom ''username''))
            else (botId, botUsername))
         else (botId, botUsername))"

definition mediaType_part0 :: "telegrafCtx \<Rightarrow> jv" where
  "mediaType_part0 ctx =
     (if truthy (optProp (ctx_message ctx) ''photo'') then JStr ''photo''
      else if truthy (optProp (ctx_message ctx) ''video'') then JStr ''video''
      else if truthy (optProp (ctx_message ctx) ''document'') then JStr ''document''
      else if truthy (optProp (ctx_message ctx) ''sticker'') then JStr ''sticker''
      else JNull)"

text \<open>Lines 185-194: the snapshot, with the exception caught at this boundary.\<close>

definition rawUpdate_part0 :: "telegrafCtx \<Rightarrow> bool \<Rightarrow> int \<Rightarrow> jv" where
  "rawUpdate_part0 ctx includeRawUpdate maxTextLength =
     (if includeRawUpdate
      then tryCatch
             (case sanitizeUpdate (ctx_update ctx) maxTextLength of
                Inl e \<Rightarrow> Inl e
              | Inr sanitized \<Rightarrow> Inr (JSON_stringify sanitized))
             JNull
      else JNull)"

definition safeCtx_part0 :: "telegrafCtx \<Rightarrow> jv \<Rightarrow> bool \<Rightarrow> int \<Rightarrow> error + jv" where
  "safeCtx_part0 ctx bot' includeRawUpdate maxTextLength =
     (let (botId, botUsername) = botInfo_part0 ctx bot' in
      case safeText_part0 (optProp (ctx_message ctx) ''text'') maxTextLength of
        Inl e \<Rightarrow> Inl e
      | Inr message \<Rightarrow>
      case safeText_part0 (optProp (ctx_callbackQuery ctx) ''data'') maxTextLength of
        Inl e \<Rightarrow> Inl e
      | Inr callback_query \<Rightarrow>
      case safeText_part0 (optProp (ctx_inlineQuery ctx) ''query'') maxTextLength of
        Inl e \<Rightarrow> Inl e
      | Inr inline_query \<Rightarrow>
      Inr (removeNulls_part0 (JObj
        [(''bot'', JObj [(''id'', botId), (''username'', botUsername)]),
         (''user'', JObj
            [(''id'', coalesce (optProp (ctx_from ctx) ''id'') JNull),
             (''username'', coalesce (optProp (ctx_from ctx) ''username'') JNull),
             (''first_name'', coalesce (optProp (ctx_from ctx) ''first_name'') JNull),
             (''last_name'', coalesce (optProp (ctx_from ctx) ''last_name'') JNull),
             (''language_code'', coalesce (optProp (ctx_from ctx) ''language_code'') JNull)]),
         (''chat'', JObj
            [(''id'', coalesce (optProp (ctx_chat ctx) ''id'') JNull),
             (''type'', coalesce (optProp (ctx_chat ctx) ''type'') JNull),
             (''title'', coalesce (optProp (ctx_chat ctx) ''title'') JNull),
             (''username'', coalesce (optProp (ctx_chat ctx) ''username'') JNull)]),
         (''message'', message),
         (''callback_query'', callback_query),
         (''inline_query'', inline_query),
         (''media_type'', mediaType_part0 ctx),
         (''raw_update'', rawUpdate_part0 ctx includeRawUpdate maxTextLength)])))"

section \<open>The no-null invariant\<close>

text \<open>
  A value that must not appear in a telemetry record: \<open>null\<close>, \<open>undefined\<close>, an
  empty array or an empty object. A tree is free of them when no key and no array
  position holds one, at any depth.
\<close>

fun hollow :: "jv \<Rightarrow> bool" where
  "hollow JNull = True"
| "hollow JUndef = True"
| "hollow (JArr xs) = (xs = [])"
| "hollow (JObj es) = (es = [])"
| "hollow v = False"

fun nullFree :: "jv \<Rightarrow> bool" where
  "nullFree (JObj es) = list_all (\<lambda>(k, v). \<not> hollow v \<and> nullFree v) es"
| "nullFree (JArr xs) = list_all (\<lambda>v. \<not> hollow v \<and> nullFree v) xs"
| "nullFree v = True"

section \<open>Payload Composer of the second module\<close>

text \<open>
  \<open>safeCtx\<close> of the second module of \<open>src/index.js\<close> (lines 275-393). Its parts,
  in the order of the object literal.
\<close>

text \<open>
  \<open>v.map(f)\<close>: arrays have the method; on any other value the call raises a
  TypeError.
\<close>

fun mapCall :: "(jv \<Rightarrow> error + jv) \<Rightarrow> jv \<Rightarrow> error + jv" where
  "mapCall f (JArr xs) = (case mapE f xs of Inl e \<Rightarrow> Inl e | Inr ys \<Rightarrow> Inr (JArr ys))"
| "mapCall f v = Inl TypeError"

text \<open>\<open>obj?.key?.slice(0, 200) ?? null\<close> (lines 292-294).\<close>

definition cutField :: "jv \<Rightarrow> string \<Rightarrow> error + jv" where
  "cutField obj key =
     (let t = optProp obj key in
      if nullish t then Inr JNull
      else (case sliceCall t 200 of Inl e \<Rightarrow> Inl e | Inr s \<Rightarrow> Inr (coalesce s JNull)))"

text \<open>Lines 295-300.\<close>

definition tgDate_fin :: "telegrafCtx \<Rightarrow> jv" where
  "tgDate_fin ctx =
     coalesce
       (coalesce
          (coalesce
             (coalesce
                (optProp (optProp (ctx_update ctx) ''message'') ''date'')
                (optProp (optProp (ctx_update ctx) ''edited_message'') ''date''))
             (optProp (optProp (ctx_update ctx) ''channel_post'') ''date''))
          (optProp (optProp (ctx_update ctx) ''edited_channel_post'') ''date''))
       JNull"

text \<open>\<open>ctx.message?.key?.file_id ?? null\<close> (lines 306-310).\<close>

definition fileId :: "jv \<Rightarrow> string \<Rightarrow> jv" where
  "fileId message key = coalesce (optProp (optProp message key) ''file_id'') JNull"

text \<open>\<open>ctx.message?.photo?.map((p) => p.file_id) ?? null\<close> (line 305).\<close>

definition photoIds :: "jv \<Rightarrow> error + jv" where
  "photoIds message =
     (let photo = optProp message ''photo'' in
      if nullish photo then Inr JNull
      else (case mapCall (\<lambda>p. getProp p ''file_id'') photo of
              Inl e \<Rightarrow> Inl e
            | Inr ids \<Rightarrow> Inr (coalesce ids JNull)))"

text \<open>Lines 313-318.\<close>

definition pollSummary :: "jv \<Rightarrow> error + jv" where
  "pollSummary message =
     (if truthy (optProp message ''poll'') then
        (let poll = member message ''poll'' in
         case mapCall (\<lambda>opt. getProp opt ''text'') (member poll ''options'') of
           Inl e \<Rightarrow> Inl e
         | Inr texts \<Rightarrow> Inr (JObj [(''question'', member poll ''question''), (''options'', texts)]))
      else Inr JNull)"

text \<open>Lines 304-319.\<close>

definition media_fin :: "jv \<Rightarrow> error + jv" where
  "media_fin message =
     (case photoIds message of
        Inl e \<Rightarrow> Inl e
      | Inr photo \<Rightarrow>
      case pollSummary message of
        Inl e \<Rightarrow> Inl e
      | Inr poll \<Rightarrow>
      Inr (JObj
        [(''photo'', photo),
         (''document'', fileId message ''document''),
         (''video'', fileId message ''video''),
         (''audio'', fileId message ''audio''),
         (''voice'', fileId message ''voice''),
         (''sticker'', fileId message ''sticker''),
         (''contact'', coalesce (optProp message ''contact'') JNull),
         (''location'', coalesce (optProp message ''location'') JNull),
         (''poll'', poll)]))"

text \<open>Lines 322-354: the payment sub-record.\<close>

definition payment_fin :: "telegrafCtx \<Rightarrow> jv" where
  "payment_fin ctx =
     (if truthy (optProp (ctx_message ctx) ''successful_payment'') then
        (let sp = member (ctx_message ctx) ''successful_payment'' in
         JObj [(''currency'', member sp ''currency''),
               (''total_amount'', member sp ''total_amount''),
               (''invoice_payload'', member sp ''invoice_payload''),
               (''telegram_payment_charge_id'', member sp ''telegram_payment_charge_id''),
               (''provider_payment_charge_id'', member sp ''provider_payment_charge_id'')])
      else if truthy (optProp (ctx_message ctx) ''invoice'') then
        (let invoice = member (ctx_message ctx) ''invoice'' in
         JObj [(''title'', member invoice ''title''),
               (''description'', member invoice ''description''),
               (''currency'', member invoice ''currency''),
               (''total_amount'', member invoice ''total_amount''),
               (''start_parameter'', member invoice ''start_parameter''),
               (''payload'', member invoice ''payload'')])
      else if truthy (ctx_preCheckoutQuery ctx) then
        JObj [(''id'', member (ctx_preCheckoutQuery ctx) ''id''),
              (''currency'', member (ctx_preCheckoutQuery ctx) ''currency''),
              (''total_amount'', member (ctx_preCheckoutQuery ctx) ''total_amount''),
              (''payload'', member (ctx_preCheckoutQuery ctx) ''invoice_payload'')]
      else if truthy (ctx_shippingQuery ctx) then
        JObj [(''id'', member (ctx_shippingQuery ctx) ''id''),
              (''payload'', member (ctx_shippingQuery ctx) ''invoice_payload''),
              (''shipping_address'', member (ctx_shippingQuery ctx) ''shipping_address'')]
      else JNull)"

text \<open>The categories whose snapshot is not cut (line 360).\<close>

definition financialTypes :: "string list" where
  "financialTypes = [''successful_payment'', ''invoice'', ''pre_checkout_query'', ''shipping_query'']"

text \<open>Lines 357-368: the snapshot.\<close>

definition rawUpdate_fin :: "telegrafCtx \<Rightarrow> string \<Rightarrow> jv" where
  "rawUpdate_fin ctx eventType =
     tryCatch
       (if eventType \<in> set financialTypes then Inr (JSON_stringify (ctx_update ctx))
        else if truthy (ctx_update ctx) then sliceCall (JSON_stringify (ctx_update ctx)) 500
        else Inr JNull)
       JNull"

text \<open>
  The whole function. \<open>now\<close> is \<open>Math.floor(Date.now() / 1000)\<close>. An exception of
  the classifier or of a field expression ends the call.
\<close>

definition safeCtx_fin :: "telegrafCtx \<Rightarrow> jv \<Rightarrow> int \<Rightarrow> error + jv" where
  "safeCtx_fin ctx bot' now =
     (case detectEventType_fin ctx of
        Inl e \<Rightarrow> Inl e
      | Inr eventType \<Rightarrow>
      case getProp bot' ''botInfo'' of
        Inl e \<Rightarrow> Inl e
      | Inr botInfo \<Rightarrow>
      case cutField (ctx_message ctx) ''text'' of
        Inl e \<Rightarrow> Inl e
      | Inr message \<Rightarrow>
      case cutField (ctx_callbackQuery ctx) ''data'' of
        Inl e \<Rightarrow> Inl e
      | Inr callback_query \<Rightarrow>
      case cutField (ctx_inlineQuery ctx) ''query'' of
        Inl e \<Rightarrow> Inl e
      | Inr inline_query \<Rightarrow>
      case media_fin (ctx_message ctx) of
        Inl e \<Rightarrow> Inl e
      | Inr media \<Rightarrow>
      Inr (removeNulls (JObj
        [(''bot'', JObj
            [(''username'', coalesce (optProp botInfo ''username'') JNull),
             (''id'', coalesce (optProp botInfo ''id'') JNull)]),
         (''user'', JObj
            [(''id'', coalesce (optProp (ctx_from ctx) ''id'') JNull),
             (''username'', coalesce (optProp (ctx_from ctx) ''username'') JNull)]),
         (''chat'', JObj
            [(''id'', coalesce (optProp (ctx_chat ctx) ''id'') JNull),
             (''type'', coalesce (optProp (ctx_chat ctx) ''type'') JNull)]),
         (''event_type'', JStr eventType),
         (''message'', message),
         (''callback_query'', callback_query),
         (''inline_query'', inline_query),
         (''tg_date'', tgDate_fin ctx),
         (''app_date'', JNum now),
         (''media'', media),
         (''payment'', payment_fin ctx),
         (''raw_update'', rawUpdate_fin ctx eventType)])))"

section \<open>Reading a pruned record\<close>

text \<open>
  What \<open>removeNulls\<close> of \<open>src/index.js\<close> leaves under a key whose value was
  \<open>v\<close>: the pruned value, and nothing (a read gives \<open>undefined\<close>) when the
  pruned value is \<open>null\<close>, \<open>undefined\<close> or an empty array.
\<close>

definition prunedField :: "jv \<Rightarrow> jv" where
  "prunedField v =
     (let r = removeNulls v in if nullish r \<or> isEmptyArray r then JUndef else r)"

text \<open>A scalar other than \<open>null\<close> and \<open>undefined\<close>.\<close>

fun plain :: "jv \<Rightarrow> bool" where
  "plain (JBool b) = True"
| "plain (JNum n) = True"
| "plain (JStr s) = True"
| "plain v = False"

text \<open>
  The getters of Telegraf's context read the update: \<open>ctx.message\<close> is
  \<open>update.message\<close>, \<open>ctx.preCheckoutQuery\<close> is \<open>update.pre_checkout_query\<close>
  and \<open>ctx.shippingQuery\<close> is \<open>update.shipping_query\<close>.
\<close>

definition gettersAgree :: "telegrafCtx \<Rightarrow> bool" where
  "gettersAgree ctx =
     (ctx_message ctx = member (ctx_update ctx) ''message'' \<and>
      ctx_preCheckoutQuery ctx = member (ctx_update ctx) ''pre_checkout_query'' \<and>
      ctx_shippingQuery ctx = member (ctx_update ctx) ''shipping_query'')"

text \<open>
  The payment sub-record carries fields of its source: under each key of \<open>names\<close>
  it holds what pruning leaves of the source's value under the paired key.
\<close>

definition carried :: "jv \<Rightarrow> jv \<Rightarrow> (string \<times> string) list \<Rightarrow> bool" where
  "carried payment src names =
     list_all (\<lambda>(key, from_key). member payment key = prunedField (member src from_key)) names"

text \<open>A tree without arrays: objects and scalars only.\<close>

fun noArrays :: "jv \<Rightarrow> bool" where
  "noArrays (JArr xs) = False"
| "noArrays (JObj es) = list_all (\<lambda>(k, v). noArrays v) es"
| "noArrays v = True"

section \<open>Inputs on which nothing raises\<close>

text \<open>
  The sanitizer raises only where it maps a media array: on an element that is
  \<open>null\<close> or \<open>undefined\<close>. A tree is sound for it when no media array it
  reaches has such an element.
\<close>

fun soundItems :: "jv \<Rightarrow> bool" where
  "soundItems (JArr vs) = list_all (\<lambda>v. \<not> nullish v) vs"
| "soundItems v = True"

fun soundMedia :: "jv \<Rightarrow> bool" where
  "soundMedia (JArr xs) = list_all soundMedia xs"
| "soundMedia (JObj es) =
     list_all (\<lambda>(k, v). if k \<in> set mediaKeys then soundItems v else soundMedia v) es"
| "soundMedia v = True"

text \<open>
  The second module of \<open>src/index.js\<close> calls \<open>slice\<close> on the text fields and
  \<open>map\<close> on the photo sizes and the poll options: the former must be strings (or
  arrays) when present, the latter arrays without \<open>null\<close> or \<open>undefined\<close>.
\<close>

fun sliceable :: "jv \<Rightarrow> bool" where
  "sliceable JNull = True"
| "sliceable JUndef = True"
| "sliceable (JStr s) = True"
| "sliceable (JArr xs) = True"
| "sliceable v = False"

fun mappable :: "jv \<Rightarrow> bool" where
  "mappable (JArr xs) = list_all (\<lambda>v. \<not> nullish v) xs"
| "mappable v = False"

definition wellTyped_fin :: "telegrafCtx \<Rightarrow> jv \<Rightarrow> bool" where
  "wellTyped_fin ctx bot' =
     (\<not> nullish (ctx_update ctx) \<and> \<not> nullish bot' \<and>
      sliceable (optProp (ctx_message ctx) ''text'') \<and>
      sliceable (optProp (ctx_callbackQuery ctx) ''data'') \<and>
      sliceable (optProp (ctx_inlineQuery ctx) ''query'') \<and>
      (nullish (optProp (ctx_message ctx) ''photo'') \<or>
       mappable (optProp (ctx_message ctx) ''photo'')) \<and>
      (if truthy (optProp (ctx_message ctx) ''poll'')
       then mappable (member (member (ctx_message ctx) ''poll'') ''options'') else True))"

section \<open>Example inputs\<close>

text \<open>A context none of whose properties is set.\<close>

definition emptyCtx :: telegrafCtx where
  "emptyCtx =
     \<lparr>ctx_update = JUndef, ctx_from = JUndef, ctx_chat = JUndef, ctx_message = JUndef,
      ctx_callbackQuery = JUndef, ctx_inlineQuery = JUndef, ctx_preCheckoutQuery = JUndef,
      ctx_shippingQuery = JUndef\<rparr>"

text \<open>An update with no key the classifier knows.\<close>

definition unknownCtx :: telegrafCtx where
  "unknownCtx = emptyCtx\<lparr>ctx_update := JObj [(''update_id'', JNum 7)]\<rparr>"

text \<open>A message that carries a successful payment and a text (Scenario B).\<close>

definition paidMessage :: jv where
  "paidMessage =
     JObj [(''message_id'', JNum 1),
           (''text'', JStr ''thanks''),
           (''successful_payment'',
              JObj [(''currency'', JStr ''USD''),
                    (''total_amount'', JNum 500),
                    (''invoice_payload'', JStr ''abc''),
                    (''telegram_payment_charge_id'', JStr ''t1''),
                    (''provider_payment_charge_id'', JStr ''p1'')])]"

definition paidCtx :: telegrafCtx where
  "paidCtx =
     emptyCtx\<lparr>ctx_update := JObj [(''update_id'', JNum 8), (''message'', paidMessage)],
              ctx_message := paidMessage\<rparr>"





text \<open>A bot whose identity is known.\<close>

definition theBot :: jv where
  "theBot = JObj [(''botInfo'', JObj [(''id'', JNum 1), (''username'', JStr ''hippo_bot'')])]"

text \<open>A poll update: Telegram sends it with no sender and no chat.\<close>

definition pollCtx :: telegrafCtx where
  "pollCtx = emptyCtx\<lparr>ctx_update :=
      JObj [(''update_id'', JNum 9),
            (''poll'', JObj [(''id'', JStr ''p1''), (''question'', JStr ''q?'')])]\<rparr>"

text \<open>A message whose photo array holds \<open>null\<close>: the sanitizer raises on it.\<close>

definition brokenPhotoCtx :: telegrafCtx where
  "brokenPhotoCtx =
     emptyCtx\<lparr>ctx_update :=
                JObj [(''update_id'', JNum 10),
                      (''message'', JObj [(''text'', JStr ''hi''), (''photo'', JArr [JNull])])],
              ctx_message := JObj [(''text'', JStr ''hi''), (''photo'', JArr [JNull])],
              ctx_from := JObj [(''id'', JNum 2), (''username'', JStr ''u'')],
              ctx_chat := JObj [(''id'', JNum 3), (''type'', JStr ''private'')]\<rparr>"

text \<open>The records composed for the payment and for the poll update.\<close>

definition paidRecord :: jv where
  "paidRecord =
     JObj [(''bot'', JObj [(''username'', JStr ''hippo_bot''), (''id'', JNum 1)]),
           (''event_type'', JStr ''successful_payment''),
           (''message'', JStr ''thanks''),
           (''app_date'', JNum 1700000000),
           (''payment'',
              JObj [(''currency'', JStr ''USD''),
                    (''total_amount'', JNum 500),
                    (''invoice_payload'', JStr ''abc''),
                    (''telegram_payment_charge_id'', JStr ''t1''),
                    (''provider_payment_charge_id'', JStr ''p1'')]),
           (''raw_update'', JSON_stringify (ctx_update paidCtx))]"

definition pollRecord :: jv where
  "pollRecord =
     JObj [(''bot'', JObj [(''username'', JStr ''hippo_bot''), (''id'', JNum 1)]),
           (''event_type'', JStr ''poll''),
           (''app_date'', JNum 1700000000),
           (''raw_update'', tryCatch (sliceCall (JSON_stringify (ctx_update pollCtx)) 500) JNull)]"

section \<open>Objects under construction\<close>

lemma setProp_map_fst:
  "map fst (map (\<lambda>(k', v'). if k' = k then (k', v) else (k', v')) out) = map fst out"
  by (induction out) auto

lemma setProp_distinct: "distinct (map fst out) \<Longrightarrow> distinct (map fst (setProp out k v))"
  unfolding setProp_def using setProp_map_fst[of k v out] by (simp del: map_map)

lemma setProp_snd: "snd ` set (setProp out k v) \<subseteq> insert v (snd ` set out)"
  unfolding setProp_def by (auto split: if_splits)

lemma foldl_setProp_distinct:
  "distinct (map fst out) \<Longrightarrow>
   distinct (map fst (foldl (\<lambda>out (k, v). setProp out k v) out es))"
proof (induction es arbitrary: out)
  case Nil
  then show ?case by simp
next
  case (Cons e es)
  obtain k v where e: "e = (k, v)" by (cases e)
  have "distinct (map fst (setProp out k v))" using Cons.prems by (rule setProp_distinct)
  from Cons.IH[OF this] show ?case by (simp add: e)
qed

lemma foldl_setProp_snd:
  "snd ` set (foldl (\<lambda>out (k, v). setProp out k v) out es) \<subseteq> snd ` set out \<union> snd ` set es"
proof (induction es arbitrary: out)
  case Nil
  then show ?case by simp
next
  case (Cons e es)
  obtain k v where e: "e = (k, v)" by (cases e)
  have "snd ` set (foldl (\<lambda>out (k, v). setProp out k v) (setProp out k v) es)
        \<subseteq> snd ` set (setProp out k v) \<union> snd ` set es" by (rule Cons.IH)
  also have "\<dots> \<subseteq> insert v (snd ` set out) \<union> snd ` set es"
    using setProp_snd[of out k v] by blast
  finally show ?case by (auto simp: e)
qed

lemma foldl_setProp_fresh:
  "distinct (map fst (out @ es)) \<Longrightarrow>
   foldl (\<lambda>out (k, v). setProp out k v) out es = out @ es"
proof (induction es arbitrary: out)
  case Nil
  then show ?case by simp
next
  case (Cons e es)
  obtain k v where e: "e = (k, v)" by (cases e)
  from Cons.prems have "k \<notin> set (map fst out)" by (simp add: e)
  then have s: "setProp out k v = out @ [(k, v)]" by (simp add: setProp_def)
  from Cons.prems have "distinct (map fst ((out @ [(k, v)]) @ es))" by (simp add: e)
  from Cons.IH[OF this] show ?case by (simp add: e s)
qed

lemma fromEntries_distinct: "distinct (map fst (fromEntries es))"
  unfolding fromEntries_def by (rule foldl_setProp_distinct) simp

lemma fromEntries_snd: "snd ` set (fromEntries es) \<subseteq> snd ` set es"
  unfolding fromEntries_def using foldl_setProp_snd[of "[]" es] by simp

lemma fromEntries_id: "distinct (map fst es) \<Longrightarrow> fromEntries es = es"
  unfolding fromEntries_def using foldl_setProp_fresh[of "[]" es] by simp

lemma fromEntries_idem: "fromEntries (fromEntries es) = fromEntries es"
  by (rule fromEntries_id) (rule fromEntries_distinct)

lemma map_snd_fix:
  "(\<And>v. v \<in> snd ` set es \<Longrightarrow> f v = v) \<Longrightarrow> map (\<lambda>(k, v). (k, f v)) es = es"
  by (induction es) auto

text \<open>
  The step both pruners share: entries mapped by \<open>f\<close>, filtered by \<open>keep\<close>, and
  collected by \<open>Object.fromEntries\<close> are left as they are by a second round, when
  \<open>f\<close> is idempotent on the values concerned.
\<close>

lemma prune_entries_again:
  fixes keep :: "string \<times> jv \<Rightarrow> bool"
  assumes idem: "\<And>k v. (k, v) \<in> set es \<Longrightarrow> f (f v) = f v"
    and keep: "\<And>k k' v. keep (k, v) \<Longrightarrow> keep (k', v)"
    and c: "c = fromEntries (filter keep (map (\<lambda>(k, v). (k, f v)) es))"
  shows "fromEntries (filter keep (map (\<lambda>(k, v). (k, f v)) c)) = c"
proof -
  have vals: "snd ` set c \<subseteq> snd ` set (filter keep (map (\<lambda>(k, v). (k, f v)) es))"
    unfolding c by (rule fromEntries_snd)
  have fw: "f w = w" if "w \<in> snd ` set c" for w
  proof -
    from that vals have "w \<in> snd ` set (filter keep (map (\<lambda>(k, v). (k, f v)) es))"
      by blast
    then obtain k v where "(k, v) \<in> set es" "w = f v" by auto
    then show ?thesis using idem by simp
  qed
  have kp: "keep e" if "e \<in> set c" for e
  proof -
    obtain k w where e: "e = (k, w)" by (cases e)
    with that have "w \<in> snd ` set c" by force
    with vals have "w \<in> snd ` set (filter keep (map (\<lambda>(k, v). (k, f v)) es))"
      by blast
    then obtain p where p: "p \<in> set (filter keep (map (\<lambda>(k, v). (k, f v)) es))" "w = snd p"
      by blast
    then have "keep p" by simp
    moreover obtain k' where "p = (k', w)" using p(2) by (cases p) simp
    ultimately have "keep (k', w)" by simp
    then show ?thesis unfolding e by (rule keep)
  qed
  have m: "map (\<lambda>(k, v). (k, f v)) c = c" using fw by (rule map_snd_fix)
  have fl: "filter keep c = c" using kp by (simp add: filter_id_conv)
  have d: "fromEntries c = c" unfolding c by (rule fromEntries_idem)
  show ?thesis by (simp only: m fl d)
qed

section \<open>Null Pruner: idempotence\<close>

lemma removeNulls_idem: "removeNulls (removeNulls x) = removeNulls x"
proof (induction x)
  case (JArr xs)
  have "map removeNulls (filter (\<lambda>v. \<not> nullish v) (map removeNulls xs))
        = filter (\<lambda>v. \<not> nullish v) (map removeNulls xs)"
    using JArr by (induction xs) auto
  then show ?case by simp
next
  case (JObj es)
  define keep where "keep = (\<lambda>(k::string, v). \<not> nullish v \<and> \<not> isEmptyArray v)"
  define c where "c = fromEntries (filter keep (map (\<lambda>(k, v). (k, removeNulls v)) es))"
  have idem: "removeNulls (removeNulls v) = removeNulls v" if "(k, v) \<in> set es" for k v
    using JObj[OF that] by simp
  have again: "fromEntries (filter keep (map (\<lambda>(k, v). (k, removeNulls v)) c)) = c"
    by (rule prune_entries_again[OF idem _ c_def]) (auto simp: keep_def)
  have r: "removeNulls (JObj es) = (if length c > 0 then JObj c else JNull)"
    by (simp add: c_def keep_def Let_def)
  have "removeNulls (JObj c) = (if length c > 0 then JObj c else JNull)"
    using again by (simp add: keep_def[symmetric] Let_def)
  with r show ?case by simp
qed simp_all

lemma removeNulls_part0_idem: "removeNulls_part0 (removeNulls_part0 x) = removeNulls_part0 x"
proof (induction x)
  case (JArr xs)
  then show ?case by simp
next
  case (JObj es)
  define keep where "keep = (\<lambda>(k::string, v). \<not> nullish v)"
  define c where "c = fromEntries (filter keep (map (\<lambda>(k, v). (k, removeNulls_part0 v)) es))"
  have idem: "removeNulls_part0 (removeNulls_part0 v) = removeNulls_part0 v"
    if "(k, v) \<in> set es" for k v
    using JObj[OF that] by simp
  have again: "fromEntries (filter keep (map (\<lambda>(k, v). (k, removeNulls_part0 v)) c)) = c"
    by (rule prune_entries_again[OF idem _ c_def]) (auto simp: keep_def)
  have r: "removeNulls_part0 (JObj es) = JObj c"
    by (simp add: c_def keep_def Let_def)
  have "removeNulls_part0 (JObj c) = JObj c"
    using again by (simp add: keep_def[symmetric] Let_def)
  with r show ?case by simp
qed simp_all

text \<open>
  Claim C1. Pruning is idempotent: for every finite tree \<open>x\<close>, pruning the pruned
  tree gives the pruned tree again. This holds for the pruner of \<open>src/index.js\<close> and
  for the pruner of \<open>src/unnamed/part_000\<close>.
\<close>

theorem prune_idempotent:
  "removeNulls (removeNulls x) = removeNulls x \<and>
   removeNulls_part0 (removeNulls_part0 x) = removeNulls_part0 x"
  by (simp only: removeNulls_idem removeNulls_part0_idem)

section \<open>Event Classifier: totality and priority\<close>

lemma truthy_not_nullish: "truthy v \<Longrightarrow> \<not> nullish v"
  by (cases v) simp_all

lemma truthy_member_not_nullish: "truthy (member v k) \<Longrightarrow> \<not> nullish v"
  by (cases v) simp_all

lemma detectEventType_raises: "nullish (ctx_update ctx) \<Longrightarrow> detectEventType ctx = Inl TypeError"
  by (simp add: detectEventType_def)

text \<open>
  Claim C3, as stated, fails: when the context has no update, the first read
  \<open>update.message\<close> raises a TypeError and no category is returned.
\<close>

theorem classify_no_update_raises: "detectEventType emptyCtx = Inl TypeError"
  by (simp add: detectEventType_def emptyCtx_def)

text \<open>
  Claim C3, amended. For every context whose update is present (neither \<open>null\<close> nor
  \<open>undefined\<close>), \<open>detectEventType\<close> returns a category, that category is one of
  the closed enumeration, and it is \<open>unknown\<close> when none of the recognised top-level
  keys holds a truthy value. Being a function of the context, the category is the same
  at every call.
\<close>

theorem classify_total:
  assumes "\<not> nullish (ctx_update ctx)"
  shows "\<exists>c. detectEventType ctx = Inr c \<and> c \<in> set eventTypes \<and>
           (list_all (\<lambda>k. \<not> truthy (member (ctx_update ctx) k)) (butlast eventTypes)
              \<longrightarrow> c = ''unknown'')"
  using assms by (simp add: detectEventType_def eventTypes_def Let_def)

theorem classify_total_witness:
  "\<not> nullish (ctx_update unknownCtx) \<and>
   list_all (\<lambda>k. \<not> truthy (member (ctx_update unknownCtx) k)) (butlast eventTypes) \<and>
   detectEventType unknownCtx = Inr ''unknown'' \<and> ''unknown'' \<in> set eventTypes"
proof -
  have u: "\<not> nullish (ctx_update unknownCtx)"
    by (simp add: unknownCtx_def emptyCtx_def)
  have n: "list_all (\<lambda>k. \<not> truthy (member (ctx_update unknownCtx) k)) (butlast eventTypes)"
    by (simp add: unknownCtx_def emptyCtx_def eventTypes_def)
  from classify_total[OF u] n show ?thesis using u by auto
qed

text \<open>
  Claim C4. When the message of an update satisfies both the successful-payment
  predicate and the text predicate, the classifier of the second module of
  \<open>src/index.js\<close> returns \<open>successful_payment\<close>: the predicates are tried in a
  fixed order and the first match wins.
\<close>

theorem payment_beats_text:
  assumes "truthy (member (ctx_update ctx) ''message'')"
    and "truthy (member (member (ctx_update ctx) ''message'') ''successful_payment'')"
    and "truthy (member (member (ctx_update ctx) ''message'') ''text'')"
  shows "detectEventType_fin ctx = Inr ''successful_payment''"
  using assms truthy_member_not_nullish[OF assms(1)]
  by (simp add: detectEventType_fin_def Let_def)

theorem payment_beats_text_witness:
  "truthy (member (ctx_update paidCtx) ''message'') \<and>
   truthy (member (member (ctx_update paidCtx) ''message'') ''successful_payment'') \<and>
   truthy (member (member (ctx_update paidCtx) ''message'') ''text'') \<and>
   detectEventType_fin paidCtx = Inr ''successful_payment''"
proof -
  have a: "truthy (member (ctx_update paidCtx) ''message'')"
    by (simp add: paidCtx_def emptyCtx_def paidMessage_def)
  have b: "truthy (member (member (ctx_update paidCtx) ''message'') ''successful_payment'')"
    by (simp add: paidCtx_def emptyCtx_def paidMessage_def)
  have c: "truthy (member (member (ctx_update paidCtx) ''message'') ''text'')"
    by (simp add: paidCtx_def emptyCtx_def paidMessage_def)
  from payment_beats_text[OF a b c] a b c show ?thesis by simp
qed

section \<open>Field Redactor: truncation\<close>

lemma slice0_nonneg: "0 \<le> e \<Longrightarrow> slice0 xs e = take (nat e) xs"
  by (simp add: slice0_def Let_def min_def)

lemma slice0_length_long:
  "0 \<le> e \<Longrightarrow> e < int (length xs) \<Longrightarrow> int (length (slice0 xs e)) = e"
  by (simp add: slice0_nonneg min_def)

lemma slice0_length_le: "0 \<le> e \<Longrightarrow> int (length (slice0 xs e)) \<le> e"
  by (simp add: slice0_nonneg)

lemma slice0_cases:
  "slice0 xs e = (if 0 \<le> e then take (nat e) xs else take (length xs - nat (- e)) xs)"
proof (cases "0 \<le> e")
  case True
  then show ?thesis by (simp add: slice0_nonneg)
next
  case False
  have "nat (max (int (length xs) + e) 0) = length xs - nat (- e)" using False by linarith
  with False show ?thesis by (simp add: slice0_def Let_def)
qed

text \<open>
  Claim C5. For a maximum length \<open>mx\<close> (a length: not negative) and a string longer
  than \<open>mx\<close>, \<open>safeText\<close> of either module returns a string of length exactly
  \<open>mx\<close>, and the sanitizer, which appends the marker \<open>...[truncated]\<close>, stores a
  string of length exactly \<open>mx\<close> plus the length of the marker.
\<close>

theorem redact_length:
  assumes "0 \<le> mx" and "mx < int (length s)"
  shows "(\<exists>t. safeText (JStr s) mx = JStr t \<and> int (length t) = mx) \<and>
         (\<exists>t. safeText_part0 (JStr s) mx = Inr (JStr t) \<and> int (length t) = mx) \<and>
         int (length (limitString mx s)) = mx + int (length truncatedMarker) \<and>
         sanitizeUpdate (JObj [(k, JStr s)]) mx = Inr (JObj [(k, JStr (limitString mx s))])"
  using assms
  by (simp add: safeText_def safeText_part0_def limitString_def slice0_length_long
      sanitizeUpdate_def setProp_def)

theorem redact_length_witness:
  "(0::int) \<le> 5 \<and> 5 < int (length ''hello world'') \<and>
   safeText (JStr ''hello world'') 5 = JStr ''hello'' \<and>
   safeText_part0 (JStr ''hello world'') 5 = Inr (JStr ''hello'') \<and>
   limitString 5 ''hello world'' = ''hello...[truncated]'' \<and>
   sanitizeUpdate (JObj [(''text'', JStr ''hello world'')]) 5 =
     Inr (JObj [(''text'', JStr ''hello...[truncated]'')])"
  using redact_length[of 5 "''hello world''" "''text''"]
  by (simp add: safeText_def safeText_part0_def limitString_def slice0_def truncatedMarker_def
      sanitizeUpdate_def setProp_def)

text \<open>
  Claim C7, as stated, fails for \<open>safeText\<close> of \<open>src/index.js\<close>: an object is not
  serialised there, the result is \<open>null\<close>.
\<close>

theorem safeText_object_null: "safeText (JObj [(''a'', JNum 1)]) 500 = JNull"
  by (simp add: safeText_def)

text \<open>
  Claim C7, amended. \<open>safeText\<close> of \<open>src/unnamed/part_000\<close> cuts a string by
  \<open>slice(0, max)\<close>, serialises an object or array with \<open>JSON.stringify\<close> and cuts
  the text the same way, and returns \<open>null\<close> for \<open>null\<close> and \<open>undefined\<close>.
  \<open>safeText\<close> of \<open>src/index.js\<close> cuts a string the same way and returns
  \<open>null\<close> for every other value, objects and arrays included. Numbers and
  booleans give \<open>null\<close> in both. The cut keeps the
  first \<open>max\<close> code units (a negative \<open>max\<close> counts from the end).
\<close>

theorem redact_cases:
  "safeText_part0 (JStr s) mx = Inr (JStr (slice0 s mx)) \<and>
   (\<exists>t. serialize (JObj es) = Some t \<and>
        safeText_part0 (JObj es) mx = Inr (JStr (slice0 t mx))) \<and>
   (\<exists>t. serialize (JArr xs) = Some t \<and>
        safeText_part0 (JArr xs) mx = Inr (JStr (slice0 t mx))) \<and>
   safeText_part0 JNull mx = Inr JNull \<and>
   safeText_part0 JUndef mx = Inr JNull \<and>
   safeText_part0 (JNum n) mx = Inr JNull \<and>
   safeText_part0 (JBool b) mx = Inr JNull \<and>
   safeText (JStr s) mx = JStr (slice0 s mx) \<and>
   safeText (JObj es) mx = JNull \<and>
   safeText (JArr xs) mx = JNull \<and>
   safeText JNull mx = JNull \<and>
   safeText JUndef mx = JNull \<and>
   safeText (JNum n) mx = JNull \<and>
   safeText (JBool b) mx = JNull \<and>
   slice0 s mx = (if 0 \<le> mx then take (nat mx) s else take (length s - nat (- mx)) s)"
  using slice0_cases[of s mx]
  by (simp add: safeText_def safeText_part0_def JSON_stringify_def)

section \<open>Recursive Sanitizer: media fields\<close>

lemma idPair_cases: "idPair v = (if nullish v then Inl TypeError else Inr (idsOf v))"
  by (simp add: idPair_def getProp_def idsOf_def)


lemma mapE_idPair_total:
  "list_all (\<lambda>v. \<not> nullish v) vs \<Longrightarrow> mapE idPair vs = Inr (map idsOf vs)"
  by (induction vs) (auto simp: idPair_cases)













section \<open>Null Pruner: scalars are kept\<close>




lemma keys_map_snd: "map fst (map (\<lambda>(k, v). (k, f v)) es) = map fst es"
  by (induction es) auto




section \<open>Payload Composer: what the record holds\<close>

text \<open>
  Claim C2 fails on \<open>src/unnamed/part_000\<close>. Its \<open>removeNulls\<close> returns an
  object even when no entry is left, so for a poll update, which has no sender and no
  chat, \<open>safeCtx\<close> returns a record whose \<open>user\<close> and \<open>chat\<close> are empty
  objects.
\<close>

theorem empty_identity_left:
  "safeCtx_part0 pollCtx theBot False 500 =
     Inr (JObj [(''bot'', JObj [(''id'', JNum 1), (''username'', JStr ''hippo_bot'')]),
                (''user'', JObj []), (''chat'', JObj [])]) \<and>
   \<not> nullFree (JObj [(''bot'', JObj [(''id'', JNum 1), (''username'', JStr ''hippo_bot'')]),
                (''user'', JObj []), (''chat'', JObj [])])"
  by (simp add: safeCtx_part0_def pollCtx_def emptyCtx_def theBot_def botInfo_part0_def
      botFrom_part0_def mediaType_part0_def rawUpdate_part0_def safeText_part0_def
      optProp_def coalesce_def fromEntries_def setProp_def)

lemma safeText_part0_total: "\<exists>v. safeText_part0 t mx = Inr v"
  by (cases t) (simp_all add: safeText_part0_def JSON_stringify_def)

lemma rawUpdate_part0_failed:
  "sanitizeUpdate (ctx_update ctx) mx = Inl e \<Longrightarrow> rawUpdate_part0 ctx inc mx = JNull"
  by (simp add: rawUpdate_part0_def tryCatch_def)

text \<open>
  Claim C9. When sanitizing the update raises while the snapshot is built, \<open>safeCtx\<close>
  of \<open>src/unnamed/part_000\<close> still returns a record: the exception is caught where
  the snapshot is built, \<open>raw_update\<close> becomes \<open>null\<close> and is pruned away, and the
  record is the one composed when no snapshot is asked for.
\<close>

theorem snapshot_failure_recovered:
  assumes "sanitizeUpdate (ctx_update ctx) mx = Inl e"
  shows "\<exists>es. safeCtx_part0 ctx b True mx = Inr (JObj es) \<and>
              map_of es ''raw_update'' = None \<and>
              safeCtx_part0 ctx b True mx = safeCtx_part0 ctx b False mx"
proof -
  obtain m where m: "safeText_part0 (optProp (ctx_message ctx) ''text'') mx = Inr m"
    using safeText_part0_total by blast
  obtain c where c: "safeText_part0 (optProp (ctx_callbackQuery ctx) ''data'') mx = Inr c"
    using safeText_part0_total by blast
  obtain q where q: "safeText_part0 (optProp (ctx_inlineQuery ctx) ''query'') mx = Inr q"
    using safeText_part0_total by blast
  obtain i u where iu: "botInfo_part0 ctx b = (i, u)" by (cases "botInfo_part0 ctx b")
  have r: "rawUpdate_part0 ctx inc mx = JNull" for inc
    using assms by (rule rawUpdate_part0_failed)
  define payload where "payload =
        [(''bot'', JObj [(''id'', i), (''username'', u)]),
         (''user'', JObj
            [(''id'', coalesce (optProp (ctx_from ctx) ''id'') JNull),
             (''username'', coalesce (optProp (ctx_from ctx) ''username'') JNull),
             (''first_name'', coalesce (optProp (ctx_from ctx) ''first_name'') JNull),
             (''last_name'', coalesce (optProp (ctx_from ctx) ''last_name'') JNull),
             (''language_code'', coalesce (optProp (ctx_from ctx) ''language_code'') JNull)]),
         (''chat'', JObj
            [(''id'', coalesce (optProp (ctx_chat ctx) ''id'') JNull),
             (''type'', coalesce (optProp (ctx_chat ctx) ''type'') JNull),
             (''title'', coalesce (optProp (ctx_chat ctx) ''title'') JNull),
             (''username'', coalesce (optProp (ctx_chat ctx) ''username'') JNull)]),
         (''message'', m),
         (''callback_query'', c),
         (''inline_query'', q),
         (''media_type'', mediaType_part0 ctx),
         (''raw_update'', JNull)]"
  have s: "safeCtx_part0 ctx b inc mx = Inr (removeNulls_part0 (JObj payload))" for inc
    by (simp add: safeCtx_part0_def iu m c q r payload_def)
  define keep where "keep = (\<lambda>(k::string, v). \<not> nullish v)"
  define es where
    "es = fromEntries (filter keep (map (\<lambda>(k, v). (k, removeNulls_part0 v)) payload))"
  have p: "removeNulls_part0 (JObj payload) = JObj es"
    by (simp add: es_def keep_def Let_def)
  have d: "distinct (map fst payload)" by (simp add: payload_def)
  have "distinct (map fst (map (\<lambda>(k, v). (k, removeNulls_part0 v)) payload))"
    using d by (simp only: keys_map_snd)
  then have "distinct (map fst (filter keep (map (\<lambda>(k, v). (k, removeNulls_part0 v)) payload)))"
    by (rule distinct_map_filter)
  then have es': "es = filter keep (map (\<lambda>(k, v). (k, removeNulls_part0 v)) payload)"
    unfolding es_def by (rule fromEntries_id)
  have "map_of es ''raw_update'' = None"
    unfolding es' by (simp add: payload_def keep_def)
  with s p show ?thesis by simp
qed

theorem snapshot_failure_recovered_witness:
  "sanitizeUpdate (ctx_update brokenPhotoCtx) 500 = Inl TypeError \<and>
   safeCtx_part0 brokenPhotoCtx theBot True 500 =
     Inr (JObj [(''bot'', JObj [(''id'', JNum 1), (''username'', JStr ''hippo_bot'')]),
                (''user'', JObj [(''id'', JNum 2), (''username'', JStr ''u'')]),
                (''chat'', JObj [(''id'', JNum 3), (''type'', JStr ''private'')]),
                (''message'', JStr ''hi''),
                (''media_type'', JStr ''photo'')]) \<and>
   safeCtx_part0 brokenPhotoCtx theBot True 500 = safeCtx_part0 brokenPhotoCtx theBot False 500"
proof -
  have f: "sanitizeUpdate (ctx_update brokenPhotoCtx) 500 = Inl TypeError"
    by (simp add: brokenPhotoCtx_def emptyCtx_def sanitizeUpdate_def mediaKeys_def setProp_def
        idPair_def getProp_def limitString_def)
  have v: "safeCtx_part0 brokenPhotoCtx theBot False 500 =
     Inr (JObj [(''bot'', JObj [(''id'', JNum 1), (''username'', JStr ''hippo_bot'')]),
                (''user'', JObj [(''id'', JNum 2), (''username'', JStr ''u'')]),
                (''chat'', JObj [(''id'', JNum 3), (''type'', JStr ''private'')]),
                (''message'', JStr ''hi''),
                (''media_type'', JStr ''photo'')])"
    by (simp add: safeCtx_part0_def brokenPhotoCtx_def emptyCtx_def theBot_def botInfo_part0_def
      botFrom_part0_def mediaType_part0_def rawUpdate_part0_def safeText_part0_def
      optProp_def coalesce_def fromEntries_def setProp_def slice0_def)
  from snapshot_failure_recovered[OF f, of theBot] f v show ?thesis by auto
qed

section \<open>Payload Composer of the second module: snapshot and payment\<close>

lemma prunedField_plain: "plain v \<Longrightarrow> prunedField v = v"
  by (cases v) (simp_all add: prunedField_def)

lemma map_of_kept:
  "distinct (map fst es) \<Longrightarrow> (k, v) \<in> set es \<Longrightarrow>
   map_of (filter keep (map (\<lambda>(k, v). (k, f v)) es)) k
     = (if keep (k, f v) then Some (f v) else None)"
proof (induction es)
  case Nil
  then show ?case by simp
next
  case (Cons e es)
  obtain k' v' where e: "e = (k', v')" by (cases e)
  show ?case
  proof (cases "k' = k")
    case True
    with Cons.prems e have v: "v' = v" and nk: "k \<notin> fst ` set es"
      by (auto simp: rev_image_eqI)
    have "k \<notin> fst ` set (filter keep (map (\<lambda>(k, v). (k, f v)) es))"
      using nk by (auto simp: rev_image_eqI)
    then have "map_of (filter keep (map (\<lambda>(k, v). (k, f v)) es)) k = None"
      by (simp add: map_of_eq_None_iff)
    then show ?thesis by (simp add: e True v)
  next
    case False
    with Cons.prems e have "(k, v) \<in> set es" "distinct (map fst es)" by auto
    from Cons.IH[OF this(2) this(1)] False show ?thesis by (simp add: e)
  qed
qed

lemma member_removeNulls:
  assumes d: "distinct (map fst es)" and kv: "(k, v) \<in> set es"
  shows "member (removeNulls (JObj es)) k = prunedField v"
proof -
  define keep where "keep = (\<lambda>(k::string, v). \<not> nullish v \<and> \<not> isEmptyArray v)"
  define c where "c = fromEntries (filter keep (map (\<lambda>(k, v). (k, removeNulls v)) es))"
  have r: "removeNulls (JObj es) = (if length c > 0 then JObj c else JNull)"
    by (simp add: c_def keep_def Let_def)
  have "distinct (map fst (map (\<lambda>(k, v). (k, removeNulls v)) es))"
    using d by (simp only: keys_map_snd)
  then have "distinct (map fst (filter keep (map (\<lambda>(k, v). (k, removeNulls v)) es)))"
    by (rule distinct_map_filter)
  then have ce: "c = filter keep (map (\<lambda>(k, v). (k, removeNulls v)) es)"
    unfolding c_def by (rule fromEntries_id)
  have m: "map_of c k = (if keep (k, removeNulls v) then Some (removeNulls v) else None)"
    unfolding ce using d kv by (rule map_of_kept)
  have "member (if length c > 0 then JObj c else JNull) k = prunedField v"
  proof (cases "c = []")
    case True
    with m have "\<not> keep (k, removeNulls v)" by (auto split: if_splits)
    with True show ?thesis by (simp add: prunedField_def keep_def Let_def)
  next
    case False
    with m show ?thesis by (auto simp: prunedField_def keep_def Let_def)
  qed
  then show ?thesis unfolding r .
qed

lemma member_prunedField_obj:
  assumes "distinct (map fst es)" and "(k, v) \<in> set es"
  shows "member (prunedField (JObj es)) k = prunedField v"
proof -
  have "member (prunedField (JObj es)) k = member (removeNulls (JObj es)) k"
    by (cases "removeNulls (JObj es)") (simp_all add: prunedField_def Let_def)
  with member_removeNulls[OF assms] show ?thesis by simp
qed


lemma optProp_falsy: "\<not> truthy v \<Longrightarrow> optProp v k = JUndef"
  by (cases v) (simp_all add: optProp_def)

lemma optProp_truthy: "truthy v \<Longrightarrow> optProp v k = member v k"
  by (cases v) (simp_all add: optProp_def)

lemma detect_fin_update: "detectEventType_fin ctx = Inr t \<Longrightarrow> \<not> nullish (ctx_update ctx)"
  by (simp add: detectEventType_fin_def Let_def split: if_splits)

lemma detect_fin_payment:
  "detectEventType_fin ctx = Inr ''successful_payment'' \<Longrightarrow>
   truthy (member (ctx_update ctx) ''message'') \<and>
   truthy (member (member (ctx_update ctx) ''message'') ''successful_payment'')"
  by (simp add: detectEventType_fin_def Let_def split: if_splits)

lemma detect_fin_invoice:
  "detectEventType_fin ctx = Inr ''invoice'' \<Longrightarrow>
   truthy (member (ctx_update ctx) ''message'') \<and>
   \<not> truthy (member (member (ctx_update ctx) ''message'') ''successful_payment'') \<and>
   truthy (member (member (ctx_update ctx) ''message'') ''invoice'')"
  by (simp add: detectEventType_fin_def Let_def split: if_splits)

lemma detect_fin_pre_checkout:
  "detectEventType_fin ctx = Inr ''pre_checkout_query'' \<Longrightarrow>
   \<not> truthy (member (ctx_update ctx) ''message'') \<and>
   truthy (member (ctx_update ctx) ''pre_checkout_query'')"
  by (simp add: detectEventType_fin_def Let_def split: if_splits)

lemma detect_fin_shipping:
  "detectEventType_fin ctx = Inr ''shipping_query'' \<Longrightarrow>
   \<not> truthy (member (ctx_update ctx) ''message'') \<and>
   truthy (member (ctx_update ctx) ''shipping_query'')"
  by (simp add: detectEventType_fin_def Let_def split: if_splits)

lemma safeCtx_fin_record:
  assumes "safeCtx_fin ctx b now = Inr r"
  shows "\<exists>t payload. detectEventType_fin ctx = Inr t \<and> r = removeNulls (JObj payload) \<and>
           distinct (map fst payload) \<and>
           (''payment'', payment_fin ctx) \<in> set payload \<and>
           (''raw_update'', rawUpdate_fin ctx t) \<in> set payload"
proof -
  obtain t where t: "detectEventType_fin ctx = Inr t"
    using assms by (cases "detectEventType_fin ctx") (simp_all add: safeCtx_fin_def)
  obtain bi where bi: "getProp b ''botInfo'' = Inr bi"
    using assms t by (cases "getProp b ''botInfo''") (simp_all add: safeCtx_fin_def)
  obtain m where m: "cutField (ctx_message ctx) ''text'' = Inr m"
    using assms t bi
    by (cases "cutField (ctx_message ctx) ''text''") (simp_all add: safeCtx_fin_def)
  obtain c where c: "cutField (ctx_callbackQuery ctx) ''data'' = Inr c"
    using assms t bi m
    by (cases "cutField (ctx_callbackQuery ctx) ''data''") (simp_all add: safeCtx_fin_def)
  obtain q where q: "cutField (ctx_inlineQuery ctx) ''query'' = Inr q"
    using assms t bi m c
    by (cases "cutField (ctx_inlineQuery ctx) ''query''") (simp_all add: safeCtx_fin_def)
  obtain md where md: "media_fin (ctx_message ctx) = Inr md"
    using assms t bi m c q
    by (cases "media_fin (ctx_message ctx)") (simp_all add: safeCtx_fin_def)
  define payload where "payload =
        [(''bot'', JObj
            [(''username'', coalesce (optProp bi ''username'') JNull),
             (''id'', coalesce (optProp bi ''id'') JNull)]),
         (''user'', JObj
            [(''id'', coalesce (optProp (ctx_from ctx) ''id'') JNull),
             (''username'', coalesce (optProp (ctx_from ctx) ''username'') JNull)]),
         (''chat'', JObj
            [(''id'', coalesce (optProp (ctx_chat ctx) ''id'') JNull),
             (''type'', coalesce (optProp (ctx_chat ctx) ''type'') JNull)]),
         (''event_type'', JStr t),
         (''message'', m),
         (''callback_query'', c),
         (''inline_query'', q),
         (''tg_date'', tgDate_fin ctx),
         (''app_date'', JNum now),
         (''media'', md),
         (''payment'', payment_fin ctx),
         (''raw_update'', rawUpdate_fin ctx t)]"
  have "safeCtx_fin ctx b now = Inr (removeNulls (JObj payload))"
    unfolding safeCtx_fin_def payload_def by (simp only: t bi m c q md sum.case)
  with assms have r: "r = removeNulls (JObj payload)" by simp
  have d: "distinct (map fst payload)" by (simp add: payload_def)
  have p1: "(''payment'', payment_fin ctx) \<in> set payload" by (simp add: payload_def)
  have p2: "(''raw_update'', rawUpdate_fin ctx t) \<in> set payload" by (simp add: payload_def)
  from t r d p1 p2 show ?thesis by blast
qed

lemma serialize_some: "\<not> nullish v \<Longrightarrow> \<exists>s. serialize v = Some s"
  by (cases v) simp_all

lemma rawUpdate_fin_financial:
  assumes "t \<in> set financialTypes" and "serialize (ctx_update ctx) = Some s"
  shows "rawUpdate_fin ctx t = JStr s"
  using assms by (simp add: rawUpdate_fin_def tryCatch_def JSON_stringify_def)

lemma rawUpdate_fin_other:
  assumes "t \<notin> set financialTypes" and "serialize (ctx_update ctx) = Some s"
  shows "rawUpdate_fin ctx t = (if truthy (ctx_update ctx) then JStr (slice0 s 500) else JNull)"
  using assms by (simp add: rawUpdate_fin_def tryCatch_def JSON_stringify_def)

lemma prunedField_str: "prunedField (JStr s) = JStr s"
  by (simp add: prunedField_def)

lemma prunedField_null: "prunedField JNull = JUndef"
  by (simp add: prunedField_def)

lemma carried_obj:
  assumes "distinct (map fst es)"
    and "list_all (\<lambda>(key, from_key). (key, member src from_key) \<in> set es) names"
  shows "carried (prunedField (JObj es)) src names"
  unfolding carried_def using assms(2)
proof (induction names)
  case Nil
  then show ?case by simp
next
  case (Cons n names)
  obtain key from_key where n: "n = (key, from_key)" by (cases n)
  from Cons.prems have h: "(key, member src from_key) \<in> set es" by (simp add: n)
  have "member (prunedField (JObj es)) key = prunedField (member src from_key)"
    using assms(1) h by (rule member_prunedField_obj)
  with Cons show ?case by (simp add: n)
qed

lemma payment_fin_successful:
  assumes "gettersAgree ctx" and "detectEventType_fin ctx = Inr ''successful_payment''"
  shows "carried (prunedField (payment_fin ctx))
           (member (member (ctx_update ctx) ''message'') ''successful_payment'')
           [(''currency'', ''currency''), (''total_amount'', ''total_amount''),
            (''invoice_payload'', ''invoice_payload''),
            (''telegram_payment_charge_id'', ''telegram_payment_charge_id''),
            (''provider_payment_charge_id'', ''provider_payment_charge_id'')]"
proof -
  from detect_fin_payment[OF assms(2)] assms(1)
  have m: "truthy (ctx_message ctx)"
    and sp: "truthy (member (ctx_message ctx) ''successful_payment'')"
    and g: "ctx_message ctx = member (ctx_update ctx) ''message''"
    by (simp_all add: gettersAgree_def)
  have p: "payment_fin ctx =
        JObj [(''currency'', member (member (ctx_message ctx) ''successful_payment'') ''currency''),
               (''total_amount'', member (member (ctx_message ctx) ''successful_payment'') ''total_amount''),
               (''invoice_payload'', member (member (ctx_message ctx) ''successful_payment'') ''invoice_payload''),
               (''telegram_payment_charge_id'',
                  member (member (ctx_message ctx) ''successful_payment'') ''telegram_payment_charge_id''),
               (''provider_payment_charge_id'',
                  member (member (ctx_message ctx) ''successful_payment'') ''provider_payment_charge_id'')]"
    using sp by (simp add: payment_fin_def optProp_truthy[OF m] Let_def)
  show ?thesis unfolding p g[symmetric] by (rule carried_obj) simp_all
qed

lemma payment_fin_invoice:
  assumes "gettersAgree ctx" and "detectEventType_fin ctx = Inr ''invoice''"
  shows "carried (prunedField (payment_fin ctx))
           (member (member (ctx_update ctx) ''message'') ''invoice'')
           [(''title'', ''title''), (''description'', ''description''),
            (''currency'', ''currency''), (''total_amount'', ''total_amount''),
            (''start_parameter'', ''start_parameter''), (''payload'', ''payload'')]"
proof -
  from detect_fin_invoice[OF assms(2)] assms(1)
  have m: "truthy (ctx_message ctx)"
    and sp: "\<not> truthy (member (ctx_message ctx) ''successful_payment'')"
    and iv: "truthy (member (ctx_message ctx) ''invoice'')"
    and g: "ctx_message ctx = member (ctx_update ctx) ''message''"
    by (simp_all add: gettersAgree_def)
  have p: "payment_fin ctx =
        JObj [(''title'', member (member (ctx_message ctx) ''invoice'') ''title''),
               (''description'', member (member (ctx_message ctx) ''invoice'') ''description''),
               (''currency'', member (member (ctx_message ctx) ''invoice'') ''currency''),
               (''total_amount'', member (member (ctx_message ctx) ''invoice'') ''total_amount''),
               (''start_parameter'', member (member (ctx_message ctx) ''invoice'') ''start_parameter''),
               (''payload'', member (member (ctx_message ctx) ''invoice'') ''payload'')]"
    using sp iv by (simp add: payment_fin_def optProp_truthy[OF m] Let_def)
  show ?thesis unfolding p g[symmetric] by (rule carried_obj) simp_all
qed

lemma payment_fin_pre_checkout:
  assumes "gettersAgree ctx" and "detectEventType_fin ctx = Inr ''pre_checkout_query''"
  shows "carried (prunedField (payment_fin ctx))
           (member (ctx_update ctx) ''pre_checkout_query'')
           [(''id'', ''id''), (''currency'', ''currency''), (''total_amount'', ''total_amount''),
            (''payload'', ''invoice_payload'')]"
proof -
  from detect_fin_pre_checkout[OF assms(2)] assms(1)
  have m: "\<not> truthy (ctx_message ctx)"
    and pc: "truthy (ctx_preCheckoutQuery ctx)"
    and g: "ctx_preCheckoutQuery ctx = member (ctx_update ctx) ''pre_checkout_query''"
    by (simp_all add: gettersAgree_def)
  have p: "payment_fin ctx =
        JObj [(''id'', member (ctx_preCheckoutQuery ctx) ''id''),
              (''currency'', member (ctx_preCheckoutQuery ctx) ''currency''),
              (''total_amount'', member (ctx_preCheckoutQuery ctx) ''total_amount''),
              (''payload'', member (ctx_preCheckoutQuery ctx) ''invoice_payload'')]"
    using pc by (simp add: payment_fin_def optProp_falsy[OF m])
  show ?thesis unfolding p g[symmetric] by (rule carried_obj) simp_all
qed

lemma payment_fin_shipping:
  assumes "gettersAgree ctx" and "detectEventType_fin ctx = Inr ''shipping_query''"
    and "\<not> truthy (member (ctx_update ctx) ''pre_checkout_query'')"
  shows "carried (prunedField (payment_fin ctx))
           (member (ctx_update ctx) ''shipping_query'')
           [(''id'', ''id''), (''payload'', ''invoice_payload''),
            (''shipping_address'', ''shipping_address'')]"
proof -
  from detect_fin_shipping[OF assms(2)] assms(1) assms(3)
  have m: "\<not> truthy (ctx_message ctx)"
    and pc: "\<not> truthy (ctx_preCheckoutQuery ctx)"
    and sq: "truthy (ctx_shippingQuery ctx)"
    and g: "ctx_shippingQuery ctx = member (ctx_update ctx) ''shipping_query''"
    by (simp_all add: gettersAgree_def)
  have p: "payment_fin ctx =
        JObj [(''id'', member (ctx_shippingQuery ctx) ''id''),
              (''payload'', member (ctx_shippingQuery ctx) ''invoice_payload''),
              (''shipping_address'', member (ctx_shippingQuery ctx) ''shipping_address'')]"
    using pc sq by (simp add: payment_fin_def optProp_falsy[OF m])
  show ?thesis unfolding p g[symmetric] by (rule carried_obj) simp_all
qed

text \<open>
  Claim C8. Let \<open>safeCtx\<close> of the second module of \<open>src/index.js\<close> return a
  record for an update classified as \<open>t\<close>. When \<open>t\<close> is a financial category
  (\<open>successful_payment\<close>, \<open>invoice\<close>, \<open>pre_checkout_query\<close>,
  \<open>shipping_query\<close>), \<open>raw_update\<close> is the whole serialised update, uncut.
  Otherwise it is the serialised update cut to its first 500 code units (and absent when
  the update is falsy). The payment sub-record holds, under each of its keys, the value
  of the source field as pruning leaves it, which for a scalar other than \<open>null\<close> is
  the value itself, where the context's getters read the update.
\<close>

theorem financial_snapshot_full:
  assumes "safeCtx_fin ctx b now = Inr r" and "detectEventType_fin ctx = Inr t"
  shows "\<exists>s. serialize (ctx_update ctx) = Some s \<and>
     (t \<in> set financialTypes \<longrightarrow> member r ''raw_update'' = JStr s) \<and>
     (t \<notin> set financialTypes \<longrightarrow>
        member r ''raw_update'' =
          (if truthy (ctx_update ctx) then JStr (slice0 s 500) else JUndef) \<and>
        length (slice0 s 500) \<le> 500) \<and>
     (gettersAgree ctx \<longrightarrow>
        (t = ''successful_payment'' \<longrightarrow>
           carried (member r ''payment'')
             (member (member (ctx_update ctx) ''message'') ''successful_payment'')
             [(''currency'', ''currency''), (''total_amount'', ''total_amount''),
              (''invoice_payload'', ''invoice_payload''),
              (''telegram_payment_charge_id'', ''telegram_payment_charge_id''),
              (''provider_payment_charge_id'', ''provider_payment_charge_id'')]) \<and>
        (t = ''invoice'' \<longrightarrow>
           carried (member r ''payment'')
             (member (member (ctx_update ctx) ''message'') ''invoice'')
             [(''title'', ''title''), (''description'', ''description''),
              (''currency'', ''currency''), (''total_amount'', ''total_amount''),
              (''start_parameter'', ''start_parameter''), (''payload'', ''payload'')]) \<and>
        (t = ''pre_checkout_query'' \<longrightarrow>
           carried (member r ''payment'') (member (ctx_update ctx) ''pre_checkout_query'')
             [(''id'', ''id''), (''currency'', ''currency''),
              (''total_amount'', ''total_amount''), (''payload'', ''invoice_payload'')]) \<and>
        (t = ''shipping_query'' \<and> \<not> truthy (member (ctx_update ctx) ''pre_checkout_query'') \<longrightarrow>
           carried (member r ''payment'') (member (ctx_update ctx) ''shipping_query'')
             [(''id'', ''id''), (''payload'', ''invoice_payload''),
              (''shipping_address'', ''shipping_address'')])) \<and>
     (\<forall>v. plain v \<longrightarrow> prunedField v = v)"
proof -
  from safeCtx_fin_record[OF assms(1)] assms(2)
  obtain payload where r: "r = removeNulls (JObj payload)"
    and d: "distinct (map fst payload)"
    and p1: "(''payment'', payment_fin ctx) \<in> set payload"
    and p2: "(''raw_update'', rawUpdate_fin ctx t) \<in> set payload" by auto
  have pay: "member r ''payment'' = prunedField (payment_fin ctx)"
    unfolding r using d p1 by (rule member_removeNulls)
  have raw: "member r ''raw_update'' = prunedField (rawUpdate_fin ctx t)"
    unfolding r using d p2 by (rule member_removeNulls)
  from detect_fin_update[OF assms(2)] obtain s where s: "serialize (ctx_update ctx) = Some s"
    using serialize_some by blast
  have a: "member r ''raw_update'' = JStr s" if "t \<in> set financialTypes"
    unfolding raw rawUpdate_fin_financial[OF that s] by (rule prunedField_str)
  have b: "member r ''raw_update'' =
          (if truthy (ctx_update ctx) then JStr (slice0 s 500) else JUndef)"
    if "t \<notin> set financialTypes"
    unfolding raw rawUpdate_fin_other[OF that s]
    by (simp add: prunedField_str prunedField_null)
  have l: "length (slice0 s 500) \<le> 500" using slice0_length_le[of 500 s] by simp
  have c1: "carried (member r ''payment'')
             (member (member (ctx_update ctx) ''message'') ''successful_payment'')
             [(''currency'', ''currency''), (''total_amount'', ''total_amount''),
              (''invoice_payload'', ''invoice_payload''),
              (''telegram_payment_charge_id'', ''telegram_payment_charge_id''),
              (''provider_payment_charge_id'', ''provider_payment_charge_id'')]"
    if "gettersAgree ctx" and "t = ''successful_payment''"
    unfolding pay using that(1) assms(2)[unfolded that(2)] by (rule payment_fin_successful)
  have c2: "carried (member r ''payment'')
             (member (member (ctx_update ctx) ''message'') ''invoice'')
             [(''title'', ''title''), (''description'', ''description''),
              (''currency'', ''currency''), (''total_amount'', ''total_amount''),
              (''start_parameter'', ''start_parameter''), (''payload'', ''payload'')]"
    if "gettersAgree ctx" and "t = ''invoice''"
    unfolding pay using that(1) assms(2)[unfolded that(2)] by (rule payment_fin_invoice)
  have c3: "carried (member r ''payment'') (member (ctx_update ctx) ''pre_checkout_query'')
             [(''id'', ''id''), (''currency'', ''currency''),
              (''total_amount'', ''total_amount''), (''payload'', ''invoice_payload'')]"
    if "gettersAgree ctx" and "t = ''pre_checkout_query''"
    unfolding pay using that(1) assms(2)[unfolded that(2)] by (rule payment_fin_pre_checkout)
  have c4: "carried (member r ''payment'') (member (ctx_update ctx) ''shipping_query'')
             [(''id'', ''id''), (''payload'', ''invoice_payload''),
              (''shipping_address'', ''shipping_address'')]"
    if "gettersAgree ctx"
      and "t = ''shipping_query'' \<and> \<not> truthy (member (ctx_update ctx) ''pre_checkout_query'')"
  proof -
    from that(2) have t': "t = ''shipping_query''"
      and n: "\<not> truthy (member (ctx_update ctx) ''pre_checkout_query'')" by simp_all
    show ?thesis
      unfolding pay using that(1) assms(2)[unfolded t'] n by (rule payment_fin_shipping)
  qed
  show ?thesis
  proof (intro exI[of _ s] conjI impI allI)
    show "serialize (ctx_update ctx) = Some s" by (rule s)
  next
    assume "t \<in> set financialTypes"
    then show "member r ''raw_update'' = JStr s" by (rule a)
  next
    assume "t \<notin> set financialTypes"
    then show "member r ''raw_update'' =
          (if truthy (ctx_update ctx) then JStr (slice0 s 500) else JUndef)" by (rule b)
  next
    show "length (slice0 s 500) \<le> 500" by (rule l)
  next
    assume "gettersAgree ctx" and "t = ''successful_payment''"
    then show "carried (member r ''payment'')
             (member (member (ctx_update ctx) ''message'') ''successful_payment'')
             [(''currency'', ''currency''), (''total_amount'', ''total_amount''),
              (''invoice_payload'', ''invoice_payload''),
              (''telegram_payment_charge_id'', ''telegram_payment_charge_id''),
              (''provider_payment_charge_id'', ''provider_payment_charge_id'')]"
      by (rule c1)
  next
    assume "gettersAgree ctx" and "t = ''invoice''"
    then show "carried (member r ''payment'')
             (member (member (ctx_update ctx) ''message'') ''invoice'')
             [(''title'', ''title''), (''description'', ''description''),
              (''currency'', ''currency''), (''total_amount'', ''total_amount''),
              (''start_parameter'', ''start_parameter''), (''payload'', ''payload'')]"
      by (rule c2)
  next
    assume "gettersAgree ctx" and "t = ''pre_checkout_query''"
    then show "carried (member r ''payment'') (member (ctx_update ctx) ''pre_checkout_query'')
             [(''id'', ''id''), (''currency'', ''currency''),
              (''total_amount'', ''total_amount''), (''payload'', ''invoice_payload'')]"
      by (rule c3)
  next
    assume "gettersAgree ctx"
      and "t = ''shipping_query'' \<and> \<not> truthy (member (ctx_update ctx) ''pre_checkout_query'')"
    then show "carried (member r ''payment'') (member (ctx_update ctx) ''shipping_query'')
             [(''id'', ''id''), (''payload'', ''invoice_payload''),
              (''shipping_address'', ''shipping_address'')]"
      by (rule c4)
  next
    fix v :: jv
    assume "plain v"
    then show "prunedField v = v" by (rule prunedField_plain)
  qed
qed

lemma paid_run: "safeCtx_fin paidCtx theBot 1700000000 = Inr paidRecord"
  by (simp add: safeCtx_fin_def paidRecord_def paidCtx_def paidMessage_def emptyCtx_def theBot_def
      detectEventType_fin_def getProp_def cutField_def media_fin_def photoIds_def
      pollSummary_def fileId_def payment_fin_def rawUpdate_fin_def tgDate_fin_def
      financialTypes_def tryCatch_def JSON_stringify_def optProp_def coalesce_def
      slice0_def fromEntries_def setProp_def Let_def)

lemma poll_run: "safeCtx_fin pollCtx theBot 1700000000 = Inr pollRecord"
  by (simp add: safeCtx_fin_def pollRecord_def pollCtx_def emptyCtx_def theBot_def
      detectEventType_fin_def getProp_def cutField_def media_fin_def photoIds_def
      pollSummary_def fileId_def payment_fin_def rawUpdate_fin_def tgDate_fin_def
      financialTypes_def tryCatch_def JSON_stringify_def optProp_def coalesce_def
      fromEntries_def setProp_def Let_def)


theorem financial_snapshot_full_witness:
  "safeCtx_fin paidCtx theBot 1700000000 = Inr paidRecord \<and>
   detectEventType_fin paidCtx = Inr ''successful_payment'' \<and>
   ''successful_payment'' \<in> set financialTypes \<and>
   gettersAgree paidCtx \<and>
   member paidRecord ''raw_update'' = JSON_stringify (ctx_update paidCtx) \<and>
   carried (member paidRecord ''payment'')
     (member (member (ctx_update paidCtx) ''message'') ''successful_payment'')
     [(''currency'', ''currency''), (''total_amount'', ''total_amount''),
      (''invoice_payload'', ''invoice_payload''),
      (''telegram_payment_charge_id'', ''telegram_payment_charge_id''),
      (''provider_payment_charge_id'', ''provider_payment_charge_id'')] \<and>
   plain (JNum 500) \<and> prunedField (JNum 500) = JNum 500 \<and>
   safeCtx_fin pollCtx theBot 1700000000 = Inr pollRecord \<and>
   detectEventType_fin pollCtx = Inr ''poll'' \<and>
   ''poll'' \<notin> set financialTypes \<and>
   (\<exists>s. serialize (ctx_update pollCtx) = Some s \<and>
        member pollRecord ''raw_update'' = JStr (slice0 s 500))"
proof -
  have d1: "detectEventType_fin paidCtx = Inr ''successful_payment''"
    by (simp add: detectEventType_fin_def paidCtx_def paidMessage_def emptyCtx_def)
  have f1: "''successful_payment'' \<in> set financialTypes" by (simp add: financialTypes_def)
  have g1: "gettersAgree paidCtx"
    by (simp add: gettersAgree_def paidCtx_def paidMessage_def emptyCtx_def)
  have p1: "plain (JNum 500)" by simp
  have paid: "member paidRecord ''raw_update'' = JSON_stringify (ctx_update paidCtx) \<and>
   carried (member paidRecord ''payment'')
     (member (member (ctx_update paidCtx) ''message'') ''successful_payment'')
     [(''currency'', ''currency''), (''total_amount'', ''total_amount''),
      (''invoice_payload'', ''invoice_payload''),
      (''telegram_payment_charge_id'', ''telegram_payment_charge_id''),
      (''provider_payment_charge_id'', ''provider_payment_charge_id'')] \<and>
   prunedField (JNum 500) = JNum 500"
    using financial_snapshot_full[OF paid_run d1] f1 g1 p1
    apply (elim exE conjE)
    apply (drule (1) mp)
    apply (drule (1) mp)
    apply (elim conjE)
    apply (drule mp, rule refl)
    apply (drule spec[of _ "JNum 500"])
    apply (drule (1) mp)
    apply (simp only: JSON_stringify_def option.case simp_thms)
    done
  have d2: "detectEventType_fin pollCtx = Inr ''poll''"
    by (simp add: detectEventType_fin_def pollCtx_def emptyCtx_def)
  have f2: "''poll'' \<notin> set financialTypes" by (simp add: financialTypes_def)
  have u2: "truthy (ctx_update pollCtx)" by (simp add: pollCtx_def emptyCtx_def)
  have poll: "\<exists>s. serialize (ctx_update pollCtx) = Some s \<and>
        member pollRecord ''raw_update'' = JStr (slice0 s 500)"
    using financial_snapshot_full[OF poll_run d2] f2
    apply (elim exE conjE)
    apply (rule exI)
    apply (rule conjI, assumption)
    apply (drule (1) mp)
    apply (simp only: u2 if_True)
    done
  from paid_run d1 f1 g1 paid p1 poll_run d2 f2 poll show ?thesis by (intro conjI) simp_all
qed

section \<open>Payload Composer of the first module: the invariant\<close>

text \<open>
  The pruner of \<open>src/index.js\<close> does remove objects left empty. When the bot, the
  sender and the chat hold no arrays (Telegram's identity fields are scalars), the
  record \<open>safeCtx\<close> of \<open>src/index.js\<close> returns is \<open>null\<close> or free of
  \<open>null\<close>, \<open>undefined\<close>, empty arrays and empty objects at every depth.
\<close>

lemma noArrays_member: "noArrays v \<Longrightarrow> noArrays (member v k)"
proof (cases v)
  case (JObj es)
  assume "noArrays v"
  with JObj have a: "list_all (\<lambda>(k, v). noArrays v) es" by simp
  show ?thesis
  proof (cases "map_of es k")
    case None
    with JObj show ?thesis by simp
  next
    case (Some w)
    then have "(k, w) \<in> set es" by (rule map_of_SomeD)
    with a have "noArrays w" by (auto simp: list_all_iff)
    with JObj Some show ?thesis by simp
  qed
qed simp_all

lemma noArrays_optProp: "noArrays v \<Longrightarrow> noArrays (optProp v k)"
  by (simp add: optProp_def noArrays_member)

lemma noArrays_coalesce: "noArrays a \<Longrightarrow> noArrays (coalesce a JNull)"
  by (simp add: coalesce_def)

lemma removeNulls_nullFree:
  "noArrays x \<Longrightarrow> nullish (removeNulls x) \<or> (\<not> hollow (removeNulls x) \<and> nullFree (removeNulls x))"
proof (induction x)
  case (JObj es)
  define keep where "keep = (\<lambda>(k::string, v). \<not> nullish v \<and> \<not> isEmptyArray v)"
  define c where "c = fromEntries (filter keep (map (\<lambda>(k, v). (k, removeNulls v)) es))"
  have r: "removeNulls (JObj es) = (if length c > 0 then JObj c else JNull)"
    by (simp add: c_def keep_def Let_def)
  have vals: "snd ` set c \<subseteq> snd ` set (filter keep (map (\<lambda>(k, v). (k, removeNulls v)) es))"
    unfolding c_def by (rule fromEntries_snd)
  have ok: "\<not> hollow w \<and> nullFree w" if "w \<in> snd ` set c" for w
  proof -
    from that vals have "w \<in> snd ` set (filter keep (map (\<lambda>(k, v). (k, removeNulls v)) es))"
      by blast
    then obtain k v where kv: "(k, v) \<in> set es" and w: "w = removeNulls v" and kp: "keep (k, w)"
      by auto
    from JObj.prems kv have "noArrays v" by (auto simp: list_all_iff)
    from JObj.IH[OF kv _ this] have "nullish w \<or> (\<not> hollow w \<and> nullFree w)" by (simp add: w)
    with kp show ?thesis by (simp add: keep_def)
  qed
  have "\<not> hollow (snd e) \<and> nullFree (snd e)" if "e \<in> set c" for e
    using ok[of "snd e"] that by simp
  then have "nullFree (JObj c)" by (auto simp: list_all_iff)
  then show ?case unfolding r by (cases "c = []") simp_all
qed simp_all

lemma safeCtx_nullFree:
  assumes "noArrays b" and "noArrays (ctx_from ctx)" and "noArrays (ctx_chat ctx)"
  shows "nullish (safeCtx ctx b inc mx) \<or> nullFree (safeCtx ctx b inc mx)"
proof -
  have t: "noArrays (safeText v mx)" for v by (cases v) (simp_all add: safeText_def)
  have raw: "noArrays (if inc then tryCatch
                   (Inr (if truthy (ctx_update ctx) then JSON_stringify (ctx_update ctx)
                         else JNull)) JNull else JNull)"
    by (cases "serialize (ctx_update ctx)") (simp_all add: tryCatch_def JSON_stringify_def)
  define payload where "payload = JObj
        [(''bot'', JObj
            [(''username'', coalesce (optProp (optProp b ''botInfo'') ''username'') JNull),
             (''id'', coalesce (optProp (optProp b ''botInfo'') ''id'') JNull)]),
         (''user'', JObj
            [(''id'', coalesce (optProp (ctx_from ctx) ''id'') JNull),
             (''username'', coalesce (optProp (ctx_from ctx) ''username'') JNull),
             (''first_name'', coalesce (optProp (ctx_from ctx) ''first_name'') JNull),
             (''last_name'', coalesce (optProp (ctx_from ctx) ''last_name'') JNull),
             (''language_code'', coalesce (optProp (ctx_from ctx) ''language_code'') JNull)]),
         (''chat'', JObj
            [(''id'', coalesce (optProp (ctx_chat ctx) ''id'') JNull),
             (''type'', coalesce (optProp (ctx_chat ctx) ''type'') JNull),
             (''title'', coalesce (optProp (ctx_chat ctx) ''title'') JNull),
             (''username'', coalesce (optProp (ctx_chat ctx) ''username'') JNull)]),
         (''message'', safeText (optProp (ctx_message ctx) ''text'') mx),
         (''callback_query'', safeText (optProp (ctx_callbackQuery ctx) ''data'') mx),
         (''inline_query'', safeText (optProp (ctx_inlineQuery ctx) ''query'') mx),
         (''raw_update'',
            if inc
            then tryCatch
                   (Inr (if truthy (ctx_update ctx) then JSON_stringify (ctx_update ctx)
                         else JNull))
                   JNull
            else JNull)]"
  have n: "noArrays payload"
    unfolding payload_def using assms raw
    by (simp add: noArrays_optProp noArrays_coalesce t del: noArrays.simps(1) split del: if_split)
  have s: "safeCtx ctx b inc mx = removeNulls payload"
    unfolding safeCtx_def payload_def Let_def ..
  from removeNulls_nullFree[OF n] show ?thesis unfolding s by blast
qed

section \<open>When the sanitizer and the composer return\<close>

text \<open>On a tree that is sound for it, the sanitizer returns.\<close>

lemma sanitize_returns:
  "soundMedia x \<Longrightarrow> \<exists>y. sanitize mx x = Inr y"
  "list_all soundMedia xs \<Longrightarrow> \<exists>ys. sanitizeItems mx xs = Inr ys"
  "list_all (\<lambda>(k, v). if k \<in> set mediaKeys then soundItems v else soundMedia v) es \<Longrightarrow>
     \<exists>r. sanitizeEntries mx es out = Inr r"
proof (induction mx x and mx xs and mx es out
       rule: sanitize_sanitizeItems_sanitizeEntries.induct)
  case (1 mx xs)
  then show ?case by auto
next
  case (2 mx es)
  then show ?case by auto
next
  case (9 mx x xs)
  then show ?case by auto
next
  case (11 mx key s es out)
  then show ?case by simp
next
  case (12 mx key vs es out)
  show ?case
  proof (cases "key \<in> set mediaKeys")
    case True
    with 12(4) have "list_all (\<lambda>v. \<not> nullish v) vs" by simp
    then have ps: "mapE idPair vs = Inr (map idsOf vs)" by (rule mapE_idPair_total)
    from 12(4) have rest: "list_all (\<lambda>(k, v). if k \<in> set mediaKeys then soundItems v
                                        else soundMedia v) es" by simp
    from 12(1)[OF True ps rest] True ps show ?thesis by simp
  next
    case False
    with 12(4) have "soundMedia (JArr vs)" by simp
    from 12(2)[OF False this] obtain v where v: "sanitize mx (JArr vs) = Inr v" by blast
    from 12(4) have rest: "list_all (\<lambda>(k, v). if k \<in> set mediaKeys then soundItems v
                                        else soundMedia v) es" by simp
    from 12(3)[OF False v rest] False v show ?thesis by simp
  qed
next
  case (13 mx key fs es out)
  show ?case
  proof (cases "key \<in> set mediaKeys")
    case True
    have p: "idPair (JObj fs) = Inr (idsOf (JObj fs))" by (simp add: idPair_cases)
    from 13(4) have rest: "list_all (\<lambda>(k, v). if k \<in> set mediaKeys then soundItems v
                                        else soundMedia v) es" by simp
    from 13(1)[OF True p rest] True p show ?thesis by simp
  next
    case False
    with 13(4) have "soundMedia (JObj fs)" by simp
    from 13(2)[OF False this] obtain v where v: "sanitize mx (JObj fs) = Inr v" by blast
    from 13(4) have rest: "list_all (\<lambda>(k, v). if k \<in> set mediaKeys then soundItems v
                                        else soundMedia v) es" by simp
    from 13(3)[OF False v rest] False v show ?thesis by simp
  qed
next
  case (14 mx key es out)
  then show ?case by (cases "key \<in> set mediaKeys") simp_all
next
  case (15 mx key es out)
  then show ?case by (cases "key \<in> set mediaKeys") simp_all
next
  case (16 mx key b es out)
  then show ?case by (cases "key \<in> set mediaKeys") simp_all
next
  case (17 mx key n es out)
  then show ?case by (cases "key \<in> set mediaKeys") simp_all
qed simp_all

text \<open>
  On a context whose fields have the types Telegram gives them, \<open>safeCtx\<close> of the
  second module of \<open>src/index.js\<close> returns a record.
\<close>

lemma detect_fin_returns: "\<not> nullish (ctx_update ctx) \<Longrightarrow> \<exists>t. detectEventType_fin ctx = Inr t"
  by (simp add: detectEventType_fin_def Let_def)

lemma cutField_returns: "sliceable (optProp obj key) \<Longrightarrow> \<exists>v. cutField obj key = Inr v"
  by (cases "optProp obj key") (simp_all add: cutField_def Let_def)

lemma mapCall_returns:
  assumes "mappable v"
  shows "\<exists>ys. mapCall (\<lambda>p. getProp p k) v = Inr ys"
proof -
  have e: "list_all (\<lambda>v. \<not> nullish v) xs \<Longrightarrow> \<exists>ys. mapE (\<lambda>p. getProp p k) xs = Inr ys" for xs
    by (induction xs) (auto simp: getProp_def)
  show ?thesis
  proof (cases v)
    case (JArr xs)
    with assms have "list_all (\<lambda>v. \<not> nullish v) xs" by simp
    from e[OF this] obtain ys where "mapE (\<lambda>p. getProp p k) xs = Inr ys" by blast
    with JArr show ?thesis by simp
  qed (use assms in simp_all)
qed

lemma photoIds_returns:
  "nullish (optProp message ''photo'') \<or> mappable (optProp message ''photo'') \<Longrightarrow>
   \<exists>v. photoIds message = Inr v"
  using mapCall_returns[of "optProp message ''photo''" "''file_id''"]
  by (auto simp: photoIds_def Let_def)

lemma pollSummary_returns:
  "(if truthy (optProp message ''poll'')
    then mappable (member (member message ''poll'') ''options'') else True) \<Longrightarrow>
   \<exists>v. pollSummary message = Inr v"
  using mapCall_returns[of "member (member message ''poll'') ''options''" "''text''"]
  by (auto simp: pollSummary_def Let_def split: if_splits)

lemma media_fin_returns:
  assumes "nullish (optProp message ''photo'') \<or> mappable (optProp message ''photo'')"
    and "if truthy (optProp message ''poll'')
         then mappable (member (member message ''poll'') ''options'') else True"
  shows "\<exists>v. media_fin message = Inr v"
proof -
  from photoIds_returns[OF assms(1)] obtain p where p: "photoIds message = Inr p" by blast
  from pollSummary_returns[OF assms(2)] obtain q where q: "pollSummary message = Inr q" by blast
  show ?thesis by (simp add: media_fin_def p q)
qed

lemma safeCtx_fin_returns:
  assumes "wellTyped_fin ctx b"
  shows "\<exists>r. safeCtx_fin ctx b now = Inr r"
proof -
  from assms have u: "\<not> nullish (ctx_update ctx)" and nb: "\<not> nullish b"
    and s1: "sliceable (optProp (ctx_message ctx) ''text'')"
    and s2: "sliceable (optProp (ctx_callbackQuery ctx) ''data'')"
    and s3: "sliceable (optProp (ctx_inlineQuery ctx) ''query'')"
    and ph: "nullish (optProp (ctx_message ctx) ''photo'') \<or>
             mappable (optProp (ctx_message ctx) ''photo'')"
    and po: "if truthy (optProp (ctx_message ctx) ''poll'')
             then mappable (member (member (ctx_message ctx) ''poll'') ''options'') else True"
    unfolding wellTyped_fin_def by simp_all
  from detect_fin_returns[OF u] obtain t where t: "detectEventType_fin ctx = Inr t" by blast
  from nb have bi: "getProp b ''botInfo'' = Inr (member b ''botInfo'')" by (simp add: getProp_def)
  from cutField_returns[OF s1] obtain m where m: "cutField (ctx_message ctx) ''text'' = Inr m"
    by blast
  from cutField_returns[OF s2] obtain c where c: "cutField (ctx_callbackQuery ctx) ''data'' = Inr c"
    by blast
  from cutField_returns[OF s3] obtain q where q: "cutField (ctx_inlineQuery ctx) ''query'' = Inr q"
    by blast
  from media_fin_returns[OF ph po] obtain md where md: "media_fin (ctx_message ctx) = Inr md"
    by blast
  show ?thesis unfolding safeCtx_fin_def by (simp only: t bi m c q md sum.case) blast
qed

section \<open>Null Pruner: what is removed\<close>







end
